theory Spec2Isabelle
  imports Main "HOL-Library.Sublist"
begin

section \<open>Data model\<close>

text \<open>
  The template engine has two stages: \<^verbatim>\<open>Tree\<close> (the parser, which turns the token
  stack into a tree of nodes) and \<^verbatim>\<open>Compiler\<close> (which turns the tree into the source
  text of a JavaScript expression). Both are embedded here as total functions.

  Strings are \<open>char list\<close>; a character outside ASCII stands for its UTF-8 bytes.
  Exceptions are values of the type \<open>error\<close>, returned as \<open>Inl\<close>.
\<close>

datatype token_name =
    START_RAW | START_PROP | START_EXPR | END_RAW | END_PROP | END_EXPR
  | WHITESPACE | FILTER | OTHER | ASSIGN | COMMENT | NOT
  | EQUALITY | NOT_EQUALITY | GREATER_THAN | GREATER_THAN_EQUAL | LESS_THAN | LESS_THAN_EQUAL
  | START_EACH | END_EACH | START_IF | ELSIF | ELSE | END_IF | PARTIAL

text \<open>A token of the stack: \<^verbatim>\<open>node.name\<close> and \<^verbatim>\<open>node.capture[0]\<close>.\<close>

datatype token = Token (name: token_name) (capture: string)

text \<open>A condition object \<^verbatim>\<open>{ type, value }\<close>; a \<^verbatim>\<open>Not\<close> condition has no value.\<close>

datatype condition =
    Identifier string | Not_cond | Literal string | Equality string | Assignment string

text \<open>A filter object \<^verbatim>\<open>{ type: "Filter", value, args }\<close>; \<^verbatim>\<open>value\<close> stays undefined
  until the first \<^verbatim>\<open>OTHER\<close> token.\<close>

datatype filter = Filter (fvalue: "string option") (fargs: "string list")

datatype scope_type = Template | ConditionalExpression | LoopExpression

text \<open>
  The nodes of the tree. A \<open>scope\<close> is an object that owns a node list: the template root,
  an expression root \<^verbatim>\<open>{ nodes: [] }\<close> before and after it is decorated by
  \<^verbatim>\<open>constructConditional\<close> or \<^verbatim>\<open>constructEach\<close>, and the \<^verbatim>\<open>els\<close> and
  \<^verbatim>\<open>elsif\<close> objects. Its fields are \<^verbatim>\<open>type\<close>, \<^verbatim>\<open>nodes\<close>, \<^verbatim>\<open>conditions\<close>,
  \<^verbatim>\<open>els\<close> and \<^verbatim>\<open>elsif\<close>, each optional one \<open>None\<close> while undefined. \<open>Expression\<close> is such an object as a
  member of a node list. A partial has no node list (\<^verbatim>\<open>constructPartial\<close> deletes it),
  only \<^verbatim>\<open>value\<close> and \<^verbatim>\<open>args\<close>.
\<close>

datatype node =
    Text string
  | Property string "filter list"
  | RawProperty string "filter list"
  | PartialExpression "string option" "string list"
  | Expression scope
and scope =
    Scope (stype: "scope_type option") (nodes: "node list")
      (conditions: "condition list option") (els: "scope option") (elsif: "scope option")

datatype error =
    UnterminatedProperty
  | Unexpected token_name
  | InvalidExpressionType
  | MissingConditions
  | TypeError

section \<open>JavaScript built-ins used by the code\<close>

text \<open>\<^verbatim>\<open>Array.prototype.join\<close> on an array of strings.\<close>

fun join :: "string \<Rightarrow> string list \<Rightarrow> string" where
  "join sep [] = []"
| "join sep [x] = x"
| "join sep (x # y # ys) = x @ sep @ join sep (y # ys)"

text \<open>\<^verbatim>\<open>String.prototype.split\<close> with a separator of one character; the second argument
  is the piece read so far.\<close>

fun split_on :: "char \<Rightarrow> string \<Rightarrow> string \<Rightarrow> string list" where
  "split_on sep piece [] = [piece]"
| "split_on sep piece (c # cs) =
     (if c = sep then piece # split_on sep [] cs else split_on sep (piece @ [c]) cs)"

definition split :: "char \<Rightarrow> string \<Rightarrow> string list" where
  "split sep s = split_on sep [] s"

text \<open>What string concatenation makes of a value that may be undefined.\<close>

definition to_string :: "string option \<Rightarrow> string" where
  "to_string v = (case v of None \<Rightarrow> ''undefined'' | Some s \<Rightarrow> s)"

text \<open>What \<^verbatim>\<open>join\<close> makes of an array element that may be undefined.\<close>

definition join_elem :: "string option \<Rightarrow> string" where
  "join_elem v = (case v of None \<Rightarrow> [] | Some s \<Rightarrow> s)"

text \<open>\<^verbatim>\<open>identifier.indexOf(c) === -1\<close> is \<open>c \<notin> set identifier\<close>.\<close>

definition quote :: char where
  "quote = CHR 0x27"

definition dquote :: char where
  "dquote = CHR 0x22"

definition backslash :: char where
  "backslash = CHR 0x5C"

text \<open>
  \<^verbatim>\<open>String.prototype.trim\<close> removes white space and line terminators from both ends.
  \<open>whitespace\<close> lists them as UTF-8 byte sequences: U+0009 to U+000D, U+0020, U+00A0,
  U+1680, U+2000 to U+200A, U+2028, U+2029, U+202F, U+205F, U+3000 and U+FEFF.
\<close>

definition whitespace :: "string list" where
  "whitespace =
     [[CHR 0x09], [CHR 0x0A], [CHR 0x0B], [CHR 0x0C], [CHR 0x0D], [CHR 0x20],
      [CHR 0xC2, CHR 0xA0], [CHR 0xE1, CHR 0x9A, CHR 0x80],
      [CHR 0xE2, CHR 0x80, CHR 0x80], [CHR 0xE2, CHR 0x80, CHR 0x81],
      [CHR 0xE2, CHR 0x80, CHR 0x82], [CHR 0xE2, CHR 0x80, CHR 0x83],
      [CHR 0xE2, CHR 0x80, CHR 0x84], [CHR 0xE2, CHR 0x80, CHR 0x85],
      [CHR 0xE2, CHR 0x80, CHR 0x86], [CHR 0xE2, CHR 0x80, CHR 0x87],
      [CHR 0xE2, CHR 0x80, CHR 0x88], [CHR 0xE2, CHR 0x80, CHR 0x89],
      [CHR 0xE2, CHR 0x80, CHR 0x8A], [CHR 0xE2, CHR 0x80, CHR 0xA8],
      [CHR 0xE2, CHR 0x80, CHR 0xA9], [CHR 0xE2, CHR 0x80, CHR 0xAF],
      [CHR 0xE2, CHR 0x81, CHR 0x9F], [CHR 0xE3, CHR 0x80, CHR 0x80],
      [CHR 0xEF, CHR 0xBB, CHR 0xBF]]"

lemma whitespace_nonempty: "w \<in> set whitespace \<Longrightarrow> w \<noteq> []"
  by (auto simp: whitespace_def)

function trimStart :: "string \<Rightarrow> string" where
  "trimStart s =
     (case find (\<lambda>w. prefix w s) whitespace of
        None \<Rightarrow> s
      | Some w \<Rightarrow> trimStart (drop (length w) s))"
  by pat_completeness auto

termination
proof (relation "measure length")
  show "wf (measure length)" by simp
next
  fix s :: string and w
  assume "find (\<lambda>w. prefix w s) whitespace = Some w"
  then have "w \<in> set whitespace" and "prefix w s"
    by (auto simp: find_Some_iff)
  then have "w \<noteq> []" and "length w \<le> length s"
    by (auto simp: whitespace_nonempty prefix_length_le)
  then show "(drop (length w) s, s) \<in> measure length"
    by (cases w) auto
qed

function trimEnd :: "string \<Rightarrow> string" where
  "trimEnd s =
     (case find (\<lambda>w. suffix w s) whitespace of
        None \<Rightarrow> s
      | Some w \<Rightarrow> trimEnd (take (length s - length w) s))"
  by pat_completeness auto

termination
proof (relation "measure length")
  show "wf (measure length)" by simp
next
  fix s :: string and w
  assume "find (\<lambda>w. suffix w s) whitespace = Some w"
  then have "w \<in> set whitespace" and "suffix w s"
    by (auto simp: find_Some_iff)
  then have "w \<noteq> []" and "length w \<le> length s"
    by (auto simp: whitespace_nonempty suffix_length_le)
  then show "(take (length s - length w) s, s) \<in> measure length"
    by (cases w) auto
qed

definition trim :: "string \<Rightarrow> string" where
  "trim s = trimEnd (trimStart s)"

text \<open>
  \<^verbatim>\<open>Number(value) === Number(value)\<close> holds unless \<^verbatim>\<open>Number(value)\<close> is NaN, that is,
  when the trimmed value is empty or a numeric literal: a hexadecimal, octal or binary
  integer with its prefix, or a decimal literal with an optional sign (digits with an
  optional fraction and exponent, or \<^verbatim>\<open>Infinity\<close>).
\<close>

definition is_digits :: "string \<Rightarrow> string \<Rightarrow> bool" where
  "is_digits ds s = (s \<noteq> [] \<and> list_all (\<lambda>c. c \<in> set ds) s)"

definition is_mantissa :: "string \<Rightarrow> bool" where
  "is_mantissa m =
     (let i = takeWhile (\<lambda>c. c \<noteq> CHR ''.'') m;
          r = dropWhile (\<lambda>c. c \<noteq> CHR ''.'') m
      in case r of
           [] \<Rightarrow> is_digits ''0123456789'' i
         | d # f \<Rightarrow> (i = [] \<or> is_digits ''0123456789'' i) \<and> (f = [] \<or> is_digits ''0123456789'' f)
                     \<and> (i \<noteq> [] \<or> f \<noteq> []))"

definition is_exponent :: "string \<Rightarrow> bool" where
  "is_exponent e =
     (case e of
        [] \<Rightarrow> False
      | c # r \<Rightarrow> if c = CHR ''+'' \<or> c = CHR ''-'' then is_digits ''0123456789'' r
                 else is_digits ''0123456789'' e)"

definition is_unsigned_decimal :: "string \<Rightarrow> bool" where
  "is_unsigned_decimal u =
     (u = ''Infinity'' \<or>
      (let m = takeWhile (\<lambda>c. c \<noteq> CHR ''e'' \<and> c \<noteq> CHR ''E'') u;
           r = dropWhile (\<lambda>c. c \<noteq> CHR ''e'' \<and> c \<noteq> CHR ''E'') u
       in is_mantissa m \<and> (case r of [] \<Rightarrow> True | x # e \<Rightarrow> is_exponent e)))"

definition is_number :: "string \<Rightarrow> bool" where
  "is_number v =
     (let s = trim v in
      s = [] \<or>
      (if take 2 s = ''0x'' \<or> take 2 s = ''0X'' then is_digits ''0123456789abcdefABCDEF'' (drop 2 s)
       else if take 2 s = ''0o'' \<or> take 2 s = ''0O'' then is_digits ''01234567'' (drop 2 s)
       else if take 2 s = ''0b'' \<or> take 2 s = ''0B'' then is_digits ''01'' (drop 2 s)
       else (case s of
               c # r \<Rightarrow> if c = CHR ''+'' \<or> c = CHR ''-'' then is_unsigned_decimal r
                         else is_unsigned_decimal s
             | [] \<Rightarrow> True)))"

declare trimStart.simps [simp del] trimEnd.simps [simp del]

section \<open>The compiler (\<^verbatim>\<open>lib/compiler.js\<close>)\<close>

text \<open>
  \<^verbatim>\<open>escapeValue\<close>: every match of the pattern \<^verbatim>\<open>escaper\<close> (a backslash, a single
  quote, carriage return, newline, tab, U+2028, U+2029) is replaced by a backslash and its
  entry in \<^verbatim>\<open>escapes\<close>. U+2028 and U+2029 are the byte sequences E2 80 A8 and
  E2 80 A9.
\<close>

fun escapeValue :: "string \<Rightarrow> string" where
  "escapeValue [] = []"
| "escapeValue (c # cs) =
     (if c = backslash then backslash # backslash # escapeValue cs
      else if c = quote then backslash # quote # escapeValue cs
      else if c = CHR 0x0D then backslash # CHR ''r'' # escapeValue cs
      else if c = CHR 0x0A then backslash # CHR ''n'' # escapeValue cs
      else if c = CHR 0x09 then backslash # CHR ''t'' # escapeValue cs
      else if c = CHR 0xE2 \<and> take 2 cs = [CHR 0x80, CHR 0xA8]
        then backslash # ''u2028'' @ escapeValue (drop 2 cs)
      else if c = CHR 0xE2 \<and> take 2 cs = [CHR 0x80, CHR 0xA9]
        then backslash # ''u2029'' @ escapeValue (drop 2 cs)
      else c # escapeValue cs)"

definition normalizeIdentifier :: "string \<Rightarrow> string" where
  "normalizeIdentifier identifier =
     (if identifier = ''.'' then ''data['.']''
      else ''data'' @ join [] (map (\<lambda>property. ''['' @ [quote] @ property @ [quote] @ '']'')
                                 (split CHR ''.'' identifier)))"

text \<open>The callback of \<^verbatim>\<open>node.filters.reduce\<close> in \<^verbatim>\<open>compileProperty\<close>.\<close>

definition nest_filter :: "string \<Rightarrow> filter \<Rightarrow> string" where
  "nest_filter memo f =
     (let args = (if length (fargs f) \<noteq> 0 then '', '' @ join '', '' (fargs f) else [])
      in ''filters['' @ [quote] @ to_string (fvalue f) @ [quote] @ '']'' @ ''('' @ memo @ args @ '')'')"

text \<open>\<^verbatim>\<open>compileProperty(node, encode)\<close> reads \<^verbatim>\<open>node.value\<close> and \<^verbatim>\<open>node.filters\<close>.\<close>

definition property_identifier :: "string \<Rightarrow> string" where
  "property_identifier v =
     (if quote \<notin> set v \<and> dquote \<notin> set v then normalizeIdentifier v else v)"

definition property_value :: "string \<Rightarrow> bool \<Rightarrow> string" where
  "property_value identifier encode =
     join '' '' [''('',
       ''typeof'', identifier, ''==='', '''function'' @ [quote],
         ''?'', (if encode then ''encode('' @ identifier @ ''())'' else identifier @ ''()''),
         '':'', (if encode then ''encode('' @ identifier @ '')'' else identifier),
       '')'']"

definition compileProperty :: "string \<Rightarrow> filter list \<Rightarrow> bool \<Rightarrow> string" where
  "compileProperty v fs encode =
     foldl nest_filter (property_value (property_identifier v) encode) fs"

definition compilePartial :: "string option \<Rightarrow> string list \<Rightarrow> string" where
  "compilePartial v as =
     join [] [''('',
       ''partials['' @ [quote] @ to_string v @ [quote] @ ''].render('',
         (case as of [] \<Rightarrow> ''null'' | a # _ \<Rightarrow> normalizeIdentifier a),
       '')'',
     '')'']"

text \<open>The callback of \<^verbatim>\<open>node.conditions.map\<close> in \<^verbatim>\<open>compileConditional\<close>; a type
  without a case yields undefined.\<close>

fun condition_fragment :: "condition \<Rightarrow> string option" where
  "condition_fragment (Identifier v) = Some (normalizeIdentifier v)"
| "condition_fragment Not_cond = Some ''!''"
| "condition_fragment (Literal v) = Some v"
| "condition_fragment (Equality v) = Some v"
| "condition_fragment (Assignment v) = None"

text \<open>\<^verbatim>\<open>condition.value\<close>.\<close>

fun cvalue :: "condition \<Rightarrow> string option" where
  "cvalue (Identifier v) = Some v"
| "cvalue Not_cond = None"
| "cvalue (Literal v) = Some v"
| "cvalue (Equality v) = Some v"
| "cvalue (Assignment v) = Some v"

text \<open>\<^verbatim>\<open>conditions[i] ? conditions[i].value : d\<close>.\<close>

definition value_at :: "condition list \<Rightarrow> nat \<Rightarrow> string \<Rightarrow> string option" where
  "value_at cs i d = (if i < length cs then cvalue (cs ! i) else Some d)"

text \<open>\<^verbatim>\<open>els || elsif || "''"\<close>, where each of the two is null or a string, and the empty
  string is falsy.\<close>

definition fallback :: "string option \<Rightarrow> string option \<Rightarrow> string" where
  "fallback els' elsif' =
     (case els' of
        Some e \<Rightarrow> (if e \<noteq> [] then e
                   else (case elsif' of Some f \<Rightarrow> (if f \<noteq> [] then f else [quote, quote])
                         | None \<Rightarrow> [quote, quote]))
      | None \<Rightarrow> (case elsif' of Some f \<Rightarrow> (if f \<noteq> [] then f else [quote, quote])
                 | None \<Rightarrow> [quote, quote]))"

text \<open>The value of \<^verbatim>\<open>condition\<close> in \<^verbatim>\<open>compileConditional\<close>.\<close>

definition condition_source :: "condition list \<Rightarrow> string" where
  "condition_source cs = join '' '' (map (\<lambda>c. join_elem (condition_fragment c)) cs)"

text \<open>
  The array \<^verbatim>\<open>loop\<close> of \<^verbatim>\<open>compileLoop\<close>, joined: \<open>conds\<close> is
  \<^verbatim>\<open>node.conditions || []\<close> and \<open>body\<close> is \<^verbatim>\<open>this.process(node.nodes, keyVal)\<close>.
  \<^verbatim>\<open>value\<close> is \<^verbatim>\<open>conditions.length && conditions[0].value\<close>, truthy when it is a
  string that is not empty.
\<close>

definition loop_source :: "condition list \<Rightarrow> string \<Rightarrow> string" where
  "loop_source conds body =
     (let keyVal0 = value_at conds 3 ''i'';
          keyVal1 = value_at conds 2 ''.'';
          v = (if length conds \<noteq> 0 then cvalue (conds ! 0) else None)
      in join [] [
           ''map('',
           (case v of
              None \<Rightarrow> ''data''
            | Some s \<Rightarrow> if s \<noteq> [] then normalizeIdentifier s else ''data''),
           '','',
           [quote], join_elem keyVal0, [quote], '','',
           [quote],
           (case v of None \<Rightarrow> [] | Some s \<Rightarrow> if s \<noteq> [] then join_elem keyVal1 else []),
           [quote], '','',
           ''data'', '','',
           ''function(data) {'',
             ''return '' @ body,
           ''}'',
           '').join('' @ [quote, quote] @ '')''])"

text \<open>
  \<^verbatim>\<open>process\<close>, \<^verbatim>\<open>compileConditional\<close> and \<^verbatim>\<open>compileLoop\<close>. \<open>commands\<close> is the array
  that the callback of \<^verbatim>\<open>nodes.map\<close> fills, \<open>processNode\<close> that callback;
  \<open>compileEls\<close> and \<open>compileElsif\<close> are the two conditional expressions that compute
  \<^verbatim>\<open>els\<close> and \<^verbatim>\<open>elsif\<close> (null is \<open>None\<close>), evaluated in this order before the
  body. Reading a property of undefined (\<^verbatim>\<open>node.value\<close> of an object without a value,
  passed to \<^verbatim>\<open>escapeValue\<close>; \<^verbatim>\<open>node.conditions.length\<close> without conditions) raises
  \<open>TypeError\<close>.
\<close>

fun commands :: "node list \<Rightarrow> error + string list"
  and processNode :: "node \<Rightarrow> error + string"
  and process :: "node list \<Rightarrow> error + string"
  and compileEls :: "scope option \<Rightarrow> error + string option"
  and compileElsif :: "scope option \<Rightarrow> error + string option"
  and compileConditional :: "scope \<Rightarrow> error + string"
  and compileLoop :: "scope \<Rightarrow> error + string"
where
  "commands [] = Inr []"
| "commands (node # rest) =
     (case processNode node of
        Inl err \<Rightarrow> Inl err
      | Inr c \<Rightarrow> (case commands rest of Inl err \<Rightarrow> Inl err | Inr cs \<Rightarrow> Inr (c # cs)))"
| "processNode (RawProperty v fs) = Inr (compileProperty v fs False)"
| "processNode (Property v fs) = Inr (compileProperty v fs True)"
| "processNode (PartialExpression v as) = Inr (compilePartial v as)"
| "processNode (Text v) = Inr ([quote] @ escapeValue v @ [quote])"
| "processNode (Expression (Scope t ns cso e ei)) =
     (case t of
        Some ConditionalExpression \<Rightarrow> compileConditional (Scope t ns cso e ei)
      | Some LoopExpression \<Rightarrow> compileLoop (Scope t ns cso e ei)
      | _ \<Rightarrow> Inl TypeError)"
| "process ns =
     (case commands ns of Inl err \<Rightarrow> Inl err | Inr cs \<Rightarrow> Inr (join ''+'' cs))"
| "compileEls None = Inr None"
| "compileEls (Some (Scope t ns cso e ei)) =
     (case process ns of Inl err \<Rightarrow> Inl err | Inr s \<Rightarrow> Inr (Some s))"
| "compileElsif None = Inr None"
| "compileElsif (Some n) =
     (case compileConditional n of Inl err \<Rightarrow> Inl err | Inr s \<Rightarrow> Inr (Some s))"
| "compileConditional (Scope t ns cso e ei) =
     (case cso of
        None \<Rightarrow> Inl TypeError
      | Some cs \<Rightarrow>
          if length cs = 0 then Inl MissingConditions
          else
            (case compileEls e of
               Inl err \<Rightarrow> Inl err
             | Inr els' \<Rightarrow>
                 (case compileElsif ei of
                    Inl err \<Rightarrow> Inl err
                  | Inr elsif' \<Rightarrow>
                      (case process ns of
                         Inl err \<Rightarrow> Inl err
                       | Inr body \<Rightarrow>
                           Inr (join [] [''('', ''('', condition_source cs, '')'', ''?'', body,
                                         '':'', fallback els' elsif', '')''])))))"
| "compileLoop (Scope t ns cso e ei) =
     (case process ns of
        Inl err \<Rightarrow> Inl err
      | Inr body \<Rightarrow> Inr (loop_source (case cso of None \<Rightarrow> [] | Some cs \<Rightarrow> cs) body))"

section \<open>The parser (\<^verbatim>\<open>Tree\<close>)\<close>

text \<open>
  The methods of \<^verbatim>\<open>Tree\<close> shift tokens off \<^verbatim>\<open>this.stack\<close> and mutate the object
  \<^verbatim>\<open>root\<close> they are given. Here each of them takes the stack, and the root where it
  changes it, and returns the stack that is left, and the root as it is left, next to its
  JavaScript return value. A \<^verbatim>\<open>switch\<close> on the name of a token is a chain of
  \<open>if\<close>s in the order of the cases; a \<^verbatim>\<open>while (this.stack.length)\<close> loop is a recursive
  function on the stack, named after its method with the suffix \<open>_loop\<close> or
  \<open>_header\<close>.
\<close>

text \<open>What \<^verbatim>\<open>constructExpression\<close> returns to \<^verbatim>\<open>make\<close>: a node, \<^verbatim>\<open>null\<close>,
  \<^verbatim>\<open>undefined\<close> or \<^verbatim>\<open>false\<close>.\<close>

datatype result = Value node | Null | Undefined | JFalse

text \<open>\<^verbatim>\<open>isString.test(value)\<close>, for the pattern \<^verbatim>\<open>/['"]+/\<close>.\<close>

definition is_string :: "string \<Rightarrow> bool" where
  "is_string v = (quote \<in> set v \<or> dquote \<in> set v)"

text \<open>Updates of the fields of an object: \<^verbatim>\<open>root.nodes.push(n)\<close>, \<^verbatim>\<open>root.nodes.pop()\<close>
  and the assignments to \<^verbatim>\<open>els\<close>, \<^verbatim>\<open>elsif\<close>, \<^verbatim>\<open>conditions\<close> and \<^verbatim>\<open>type\<close>; \<open>fresh\<close>
  is a new object \<^verbatim>\<open>{ nodes: [] }\<close>.\<close>

definition push :: "scope \<Rightarrow> node \<Rightarrow> scope" where
  "push root n = Scope (stype root) (nodes root @ [n]) (conditions root) (els root) (elsif root)"

definition pop :: "scope \<Rightarrow> scope" where
  "pop root = Scope (stype root) (butlast (nodes root)) (conditions root) (els root) (elsif root)"

definition set_els :: "scope \<Rightarrow> scope \<Rightarrow> scope" where
  "set_els root e = Scope (stype root) (nodes root) (conditions root) (Some e) (elsif root)"

definition set_elsif :: "scope \<Rightarrow> scope \<Rightarrow> scope" where
  "set_elsif root e = Scope (stype root) (nodes root) (conditions root) (els root) (Some e)"

definition set_conditions :: "scope \<Rightarrow> condition list \<Rightarrow> scope" where
  "set_conditions root cs = Scope (stype root) (nodes root) (Some cs) (els root) (elsif root)"

definition set_type :: "scope \<Rightarrow> scope_type \<Rightarrow> scope" where
  "set_type root t = Scope (Some t) (nodes root) (conditions root) (els root) (elsif root)"

definition fresh :: scope where
  "fresh = Scope None [] None None None"

subsection \<open>\<^verbatim>\<open>constructFilter\<close>\<close>

text \<open>
  The case \<^verbatim>\<open>OTHER\<close> sets the value of \<^verbatim>\<open>current\<close> when it is undefined and pushes an
  argument otherwise.
\<close>

fun set_value :: "filter \<Rightarrow> string \<Rightarrow> filter" where
  "set_value (Filter v as) x = (if v = None then Filter (Some x) as else Filter v (as @ [x]))"

text \<open>
  The loop of \<^verbatim>\<open>constructFilter\<close>. \<open>filters\<close> is \<^verbatim>\<open>root.filters\<close>. The case
  \<^verbatim>\<open>FILTER\<close> pushes \<^verbatim>\<open>current\<close>, calls \<^verbatim>\<open>constructFilter\<close> and goes on with the loop
  (its \<^verbatim>\<open>break\<close> leaves the \<^verbatim>\<open>switch\<close>), so \<^verbatim>\<open>current\<close> can change after it was pushed:
  \<open>aliases\<close> are the positions of \<^verbatim>\<open>root.filters\<close> that hold the object \<^verbatim>\<open>current\<close>, and
  a change of \<^verbatim>\<open>current\<close> is written to each of them. The cases \<^verbatim>\<open>END_RAW\<close> and
  \<^verbatim>\<open>END_PROP\<close> push \<^verbatim>\<open>current\<close> and leave the loop. The method returns \<^verbatim>\<open>root\<close>, of
  which only the filters have changed.
\<close>

function filter_loop ::
  "filter list \<Rightarrow> filter \<Rightarrow> nat list \<Rightarrow> token list \<Rightarrow> error + filter list \<times> token list"
where
  "filter_loop filters current aliases stack =
     (case stack of
        [] \<Rightarrow> Inr (filters, [])
      | node # rest \<Rightarrow>
          if name node = OTHER then
            (let current' = set_value current (trim (capture node))
             in filter_loop (fold (\<lambda>i fs. fs[i := current']) aliases filters) current' aliases rest)
          else if name node = WHITESPACE then filter_loop filters current aliases rest
          else if name node = END_RAW \<or> name node = END_PROP then Inr (filters @ [current], rest)
          else if name node = FILTER then
            (case filter_loop (filters @ [current]) (Filter None []) [] rest of
               Inl err \<Rightarrow> Inl err
             | Inr (filters', rest') \<Rightarrow>
                 filter_loop filters' current (aliases @ [length filters]) rest')
          else Inl (Unexpected (name node)))"
  by pat_completeness auto

text \<open>The loop calls itself on the stack that a nested call returns; that stack is not
  longer than the one given, so the loop terminates.\<close>

lemma filter_loop_length:
  "filter_loop_dom (filters, current, aliases, stack) \<Longrightarrow>
   filter_loop filters current aliases stack = Inr (filters', stack') \<Longrightarrow>
   length stack' \<le> length stack"
proof (induction filters current aliases stack arbitrary: filters' stack' rule: filter_loop.pinduct)
  case (1 filters current aliases stack)
  show ?case
  proof (cases stack)
    case Nil
    with "1.prems" "1.hyps" show ?thesis by (simp add: filter_loop.psimps)
  next
    case (Cons node rest)
    consider (other) "name node = OTHER" | (ws) "name node = WHITESPACE"
      | (terminator) "name node = END_RAW \<or> name node = END_PROP" | (filter) "name node = FILTER"
      | (unexpected) "name node \<notin> {OTHER, WHITESPACE, END_RAW, END_PROP, FILTER}"
      by auto
    then show ?thesis
    proof cases
      case filter
      with Cons "1.prems" "1.hyps" obtain fs1 rest1 where
        a: "filter_loop (filters @ [current]) (Filter None []) [] rest = Inr (fs1, rest1)" and
        b: "filter_loop fs1 current (aliases @ [length filters]) rest1 = Inr (filters', stack')"
        by (auto simp: filter_loop.psimps split: sum.splits)
      from filter have n: "name node \<noteq> OTHER" "name node \<noteq> WHITESPACE"
        "\<not> (name node = END_RAW \<or> name node = END_PROP)" by auto
      from "1.IH"(3)[OF Cons n filter a] have "length rest1 \<le> length rest" .
      moreover from "1.IH"(4)[OF Cons n filter a refl b] have "length stack' \<le> length rest1" .
      ultimately show ?thesis using Cons by simp
    next
      case ws
      then have n: "name node \<noteq> OTHER" by auto
      from ws Cons "1.prems" "1.hyps" "1.IH"(2)[OF Cons n ws] show ?thesis
        by (simp add: filter_loop.psimps le_SucI)
    next
      case other
      with Cons "1.prems" "1.hyps" "1.IH"(1)[OF Cons other refl] show ?thesis
        by (simp add: filter_loop.psimps Let_def le_SucI)
    qed (use Cons "1.prems" "1.hyps" in \<open>auto simp: filter_loop.psimps\<close>)
  qed
qed

lemma filter_loop_total: "All filter_loop_dom"
  by (relation "measure (\<lambda>(filters, current, aliases, stack). length stack)")
    (auto dest: filter_loop_length simp: le_imp_less_Suc)

termination filter_loop
  by (rule filter_loop_total)

declare filter_loop.simps [simp del]

definition constructFilter :: "filter list \<Rightarrow> token list \<Rightarrow> error + filter list \<times> token list" where
  "constructFilter filters stack = filter_loop filters (Filter None []) [] stack"

lemma constructFilter_length:
  "constructFilter filters stack = Inr (filters', stack') \<Longrightarrow> length stack' \<le> length stack"
  unfolding constructFilter_def using filter_loop_length filter_loop_total by blast

subsection \<open>\<^verbatim>\<open>constructProperty\<close> and \<^verbatim>\<open>constructPartial\<close>\<close>

text \<open>
  \<open>property_node encoded v filters\<close> is the object \<^verbatim>\<open>propertyDescriptor\<close>; \<open>v\<close> is its
  \<^verbatim>\<open>value\<close>, to which the loop appends the trimmed text of every token that is not
  white space, a filter separator or an end of a property. The loop ends by a
  \<^verbatim>\<open>return\<close>, or by the \<^verbatim>\<open>throw\<close> after it when the stack is empty.
\<close>

definition property_node :: "bool \<Rightarrow> string \<Rightarrow> filter list \<Rightarrow> node" where
  "property_node encoded v filters = (if encoded then Property v filters else RawProperty v filters)"

fun property_loop :: "bool \<Rightarrow> string \<Rightarrow> token list \<Rightarrow> error + node \<times> token list" where
  "property_loop encoded v [] = Inl UnterminatedProperty"
| "property_loop encoded v (node # rest) =
     (if name node = WHITESPACE then property_loop encoded v rest
      else if name node = FILTER then
        (case constructFilter [] rest of
           Inl err \<Rightarrow> Inl err
         | Inr (filters, rest') \<Rightarrow> Inr (property_node encoded v filters, rest'))
      else if name node = END_RAW \<or> name node = END_PROP then
        Inr (property_node encoded v [], rest)
      else property_loop encoded (v @ trim (capture node)) rest)"

definition constructProperty :: "bool \<Rightarrow> token list \<Rightarrow> error + node \<times> token list" where
  "constructProperty encoded stack = property_loop encoded [] stack"

text \<open>
  \<^verbatim>\<open>constructPartial\<close> sets the type of its root, deletes its node list and gives it
  empty \<^verbatim>\<open>args\<close>; the first \<^verbatim>\<open>OTHER\<close> token is its \<^verbatim>\<open>value\<close>, the next ones are
  arguments. When the stack runs out the root is returned as it is.
\<close>

fun partial_loop ::
  "string option \<Rightarrow> string list \<Rightarrow> token list \<Rightarrow> error + node \<times> token list"
where
  "partial_loop v as [] = Inr (PartialExpression v as, [])"
| "partial_loop v as (node # rest) =
     (if name node = OTHER then
        (if v = None then partial_loop (Some (trim (capture node))) as rest
         else partial_loop v (as @ [trim (capture node)]) rest)
      else if name node = WHITESPACE then partial_loop v as rest
      else if name node = END_EXPR then Inr (PartialExpression v as, rest)
      else Inl (Unexpected (name node)))"

definition constructPartial :: "token list \<Rightarrow> error + node \<times> token list" where
  "constructPartial stack = partial_loop None [] stack"

subsection \<open>\<^verbatim>\<open>constructComment\<close>\<close>

text \<open>
  The loop of \<^verbatim>\<open>constructComment\<close>; \<open>previous\<close> is the token of the last iteration,
  \<open>None\<close> for the object \<^verbatim>\<open>{}\<close> it starts with. A comment marker after the start of an
  expression tag calls \<^verbatim>\<open>constructComment\<close> again, for a nested comment, and the loop
  goes on after it. Both \<^verbatim>\<open>return\<close> statements return \<^verbatim>\<open>false\<close>.
\<close>

function comment_loop :: "token option \<Rightarrow> token list \<Rightarrow> result \<times> token list" where
  "comment_loop previous stack =
     (case stack of
        [] \<Rightarrow> (JFalse, [])
      | node # rest \<Rightarrow>
          if name node = COMMENT then
            (if map_option name previous = Some START_EXPR
             then (case comment_loop None rest of (r, rest') \<Rightarrow> comment_loop (Some node) rest')
             else comment_loop (Some node) rest)
          else if name node = END_EXPR then
            (if map_option name previous = Some COMMENT then (JFalse, rest)
             else comment_loop (Some node) rest)
          else comment_loop (Some node) rest)"
  by pat_completeness auto

lemma comment_loop_length:
  "comment_loop_dom (previous, stack) \<Longrightarrow> length (snd (comment_loop previous stack)) \<le> length stack"
proof (induction previous stack rule: comment_loop.pinduct)
  case (1 previous stack)
  show ?case
  proof (cases stack)
    case Nil
    with "1.hyps" show ?thesis by (simp add: comment_loop.psimps)
  next
    case (Cons node rest)
    show ?thesis
    proof (cases "name node = COMMENT \<and> map_option name previous = Some START_EXPR")
      case True
      obtain r rest' where a: "comment_loop None rest = (r, rest')" by force
      from "1.IH"(1)[OF Cons] True have "length (snd (comment_loop None rest)) \<le> length rest"
        by simp
      moreover from "1.IH"(2)[OF Cons _ _ a[symmetric]] True
      have "length (snd (comment_loop (Some node) rest')) \<le> length rest'" by simp
      ultimately show ?thesis using Cons True a "1.hyps" by (simp add: comment_loop.psimps)
    next
      case False
      with Cons "1.hyps" "1.IH"(3-5)[OF Cons] show ?thesis
        by (auto simp: comment_loop.psimps le_SucI)
    qed
  qed
qed

lemma comment_loop_shorter:
  "comment_loop_dom (previous, stack) \<Longrightarrow> (r, stack') = comment_loop previous stack \<Longrightarrow>
   length stack' < Suc (length stack)"
  using comment_loop_length[of previous stack] by (metis le_imp_less_Suc snd_conv)

lemma comment_loop_total: "All comment_loop_dom"
  by (relation "measure (\<lambda>(previous, stack). length stack)")
    (auto dest: comment_loop_shorter)

termination comment_loop
  by (rule comment_loop_total)

declare comment_loop.simps [simp del]

definition constructComment :: "token list \<Rightarrow> result \<times> token list" where
  "constructComment stack = comment_loop None stack"

subsection \<open>The headers of \<^verbatim>\<open>constructEach\<close> and \<^verbatim>\<open>constructConditional\<close>\<close>

text \<open>The loop of \<^verbatim>\<open>constructEach\<close> over the tokens of the tag; \<open>conds\<close> is
  \<^verbatim>\<open>root.conditions\<close>.\<close>

fun each_header :: "condition list \<Rightarrow> token list \<Rightarrow> condition list \<times> token list" where
  "each_header conds [] = (conds, [])"
| "each_header conds (node # rest) =
     (if name node = OTHER then each_header (conds @ [Identifier (trim (capture node))]) rest
      else if name node = ASSIGN then each_header (conds @ [Assignment (trim (capture node))]) rest
      else if name node = END_EXPR then (conds, rest)
      else each_header conds rest)"

text \<open>\<^verbatim>\<open>root.conditions[root.conditions.length - 1] || {}\<close>, with \<open>None\<close> for \<^verbatim>\<open>{}\<close>.\<close>

fun previous_condition :: "condition list \<Rightarrow> condition option" where
  "previous_condition [] = None"
| "previous_condition cs = Some (last cs)"

text \<open>The six cases that push an \<^verbatim>\<open>Equality\<close> condition.\<close>

definition is_comparison :: "token_name \<Rightarrow> bool" where
  "is_comparison n = (n = EQUALITY \<or> n = NOT_EQUALITY \<or> n = GREATER_THAN
     \<or> n = GREATER_THAN_EQUAL \<or> n = LESS_THAN \<or> n = LESS_THAN_EQUAL)"

text \<open>
  The loop of \<^verbatim>\<open>constructConditional\<close> over the tokens of the tag. \<open>v\<close> is \<^verbatim>\<open>value\<close>,
  the trimmed text of the token. In the default case the text \<^verbatim>\<open>true\<close> or
  \<^verbatim>\<open>false\<close>, a number and a text with a quote become a \<^verbatim>\<open>Literal\<close>; any other text
  is appended to the value of \<^verbatim>\<open>previous\<close> when that is an \<^verbatim>\<open>Identifier\<close> (it is the
  last condition, which is updated in place) and becomes a new \<^verbatim>\<open>Identifier\<close> otherwise.
  After every iteration \<^verbatim>\<open>previous\<close> is the last condition.
\<close>

fun conditional_header ::
  "condition list \<Rightarrow> condition option \<Rightarrow> token list \<Rightarrow> condition list \<times> token list"
where
  "conditional_header conds previous [] = (conds, [])"
| "conditional_header conds previous (node # rest) =
     (let v = trim (capture node) in
      if name node = END_EXPR then (conds, rest)
      else
        (let conds' =
           (if name node = NOT then conds @ [Not_cond]
            else if is_comparison (name node) then conds @ [Equality (trim (capture node))]
            else if name node = WHITESPACE then conds
            else if v = ''false'' \<or> v = ''true'' then conds @ [Literal v]
            else if is_number v then conds @ [Literal v]
            else if is_string v then conds @ [Literal v]
            else (case previous of
                    Some (Identifier p) \<Rightarrow> conds[length conds - 1 := Identifier (p @ v)]
                  | _ \<Rightarrow> conds @ [Identifier v]))
         in conditional_header conds' (previous_condition conds') rest))"

text \<open>None of these functions returns a stack longer than the one it was given.\<close>

lemma each_header_length:
  "each_header conds stack = (conds', stack') \<Longrightarrow> length stack' \<le> length stack"
  by (induction conds stack rule: each_header.induct) (auto simp: le_SucI split: if_splits)

lemma conditional_header_length:
  "conditional_header conds previous stack = (conds', stack') \<Longrightarrow> length stack' \<le> length stack"
  by (induction conds previous stack rule: conditional_header.induct)
    (auto simp: le_SucI Let_def split: if_splits)

lemma property_loop_length:
  "property_loop encoded v stack = Inr (n, stack') \<Longrightarrow> length stack' < length stack"
  by (induction encoded v stack rule: property_loop.induct)
    (auto split: if_splits sum.splits dest: constructFilter_length simp: less_SucI le_imp_less_Suc)

lemma constructProperty_length:
  "constructProperty encoded stack = Inr (n, stack') \<Longrightarrow> length stack' < length stack"
  unfolding constructProperty_def by (rule property_loop_length)

lemma partial_loop_length:
  "partial_loop v as stack = Inr (n, stack') \<Longrightarrow> length stack' \<le> length stack"
  by (induction v as stack rule: partial_loop.induct) (auto split: if_splits simp: le_SucI)

lemma constructPartial_length:
  "constructPartial stack = Inr (n, stack') \<Longrightarrow> length stack' \<le> length stack"
  unfolding constructPartial_def by (rule partial_loop_length)

lemma constructComment_length:
  "constructComment stack = (r, stack') \<Longrightarrow> length stack' \<le> length stack"
  unfolding constructComment_def using comment_loop_length[of None stack] comment_loop_total
  by simp

subsection \<open>\<^verbatim>\<open>make\<close>, \<^verbatim>\<open>constructExpression\<close>, \<^verbatim>\<open>constructConditional\<close> and \<^verbatim>\<open>constructEach\<close>\<close>

text \<open>\<^verbatim>\<open>root.type = root.type || "ConditionalExpression"\<close> and
  \<^verbatim>\<open>root.conditions = root.conditions || []\<close>.\<close>

definition type_or_conditional :: "scope \<Rightarrow> scope_type" where
  "type_or_conditional root = (case stype root of None \<Rightarrow> ConditionalExpression | Some t \<Rightarrow> t)"

definition conditions_or_empty :: "scope \<Rightarrow> condition list" where
  "conditions_or_empty root = (case conditions root of None \<Rightarrow> [] | Some cs \<Rightarrow> cs)"

text \<open>
  The default case of \<^verbatim>\<open>make\<close>: \<^verbatim>\<open>prev\<close> is the last node of \<^verbatim>\<open>root.nodes\<close>, if any.
  When it is a \<^verbatim>\<open>Text\<close> node it is popped and its value precedes the text of the token
  in the new \<^verbatim>\<open>Text\<close> node; otherwise \<^verbatim>\<open>prevWhitespace\<close> is empty.
\<close>

definition add_text :: "scope \<Rightarrow> string \<Rightarrow> scope" where
  "add_text root c =
     (case (if nodes root = [] then None else Some (last (nodes root))) of
        Some (Text prevWhitespace) \<Rightarrow> push (pop root) (Text (prevWhitespace @ c))
      | _ \<Rightarrow> push root (Text ([] @ c)))"

text \<open>
  \<^verbatim>\<open>make\<close> returns \<^verbatim>\<open>root\<close> when the stack is empty and \<^verbatim>\<open>null\<close> when
  \<^verbatim>\<open>constructExpression\<close> returns \<^verbatim>\<open>undefined\<close> or \<^verbatim>\<open>null\<close>; it pushes any node that
  \<^verbatim>\<open>constructExpression\<close> returns and goes on after \<^verbatim>\<open>false\<close>.

  \<^verbatim>\<open>constructExpression\<close> compares the name of the token with \<^verbatim>\<open>END\<close> first. For
  \<^verbatim>\<open>ELSIF\<close> and \<^verbatim>\<open>ELSE\<close> its \<^verbatim>\<open>expressionRoot\<close> is the \<^verbatim>\<open>root\<close> of its caller, which
  \<^verbatim>\<open>constructConditional\<close> changes; for the other tags it is a fresh object and \<^verbatim>\<open>root\<close>
  stays as it is.

  \<^verbatim>\<open>constructConditional\<close> with the kind \<^verbatim>\<open>ELSE\<close> sets \<^verbatim>\<open>root.els\<close> to a fresh object
  and returns what \<^verbatim>\<open>make\<close> returns for it; with the kind \<^verbatim>\<open>ELSIF\<close> it sets
  \<^verbatim>\<open>root.elsif\<close> to a fresh object and returns what \<^verbatim>\<open>constructConditional\<close>, without a
  kind, returns for that; otherwise it reads the header, calls \<^verbatim>\<open>make\<close> on the root for
  the body, and returns the root whatever \<^verbatim>\<open>make\<close> returned.

  \<^verbatim>\<open>constructEach\<close> sets the type and empty conditions, reads the header, calls
  \<^verbatim>\<open>make\<close> for the body and returns the root.
\<close>

function make :: "scope \<Rightarrow> token_name option \<Rightarrow> token list \<Rightarrow> error + result \<times> scope \<times> token list"
  and constructExpression ::
    "scope \<Rightarrow> token_name option \<Rightarrow> token list \<Rightarrow> error + result \<times> scope \<times> token list"
  and constructConditional ::
    "scope \<Rightarrow> token_name option \<Rightarrow> token list \<Rightarrow> error + result \<times> scope \<times> token list"
  and constructEach :: "scope \<Rightarrow> token list \<Rightarrow> error + scope \<times> token list"
where
  "make root END stack =
     (case stack of
        [] \<Rightarrow> Inr (Value (Expression root), root, [])
      | node # rest \<Rightarrow>
          if name node = START_RAW then
            (case constructProperty False rest of
               Inl err \<Rightarrow> Inl err
             | Inr (p, rest') \<Rightarrow> make (push root p) END rest')
          else if name node = START_PROP then
            (case constructProperty True rest of
               Inl err \<Rightarrow> Inl err
             | Inr (p, rest') \<Rightarrow> make (push root p) END rest')
          else if name node = START_EXPR then
            (case constructExpression root END rest of
               Inl err \<Rightarrow> Inl err
             | Inr (result, root', rest') \<Rightarrow>
                 (case result of
                    Value n \<Rightarrow> make (push root' n) END rest'
                  | JFalse \<Rightarrow> make root' END rest'
                  | _ \<Rightarrow> Inr (Null, root', rest')))
          else if name node = END_EXPR then make root END rest
          else make (add_text root (capture node)) END rest)"
| "constructExpression root END stack =
     (case stack of
        [] \<Rightarrow> Inr (Undefined, root, [])
      | type # rest \<Rightarrow>
          if Some (name type) = END then Inr (Undefined, root, rest)
          else if name type = WHITESPACE then constructExpression root END rest
          else if name type = COMMENT then
            (case constructComment rest of (r, rest') \<Rightarrow> Inr (r, root, rest'))
          else if name type = START_EACH then
            (case constructEach fresh rest of
               Inl err \<Rightarrow> Inl err
             | Inr (n, rest') \<Rightarrow> Inr (Value (Expression n), root, rest'))
          else if name type = ELSIF \<or> name type = ELSE then
            constructConditional root (Some (name type)) rest
          else if name type = START_IF then
            (case constructConditional fresh (Some (name type)) rest of
               Inl err \<Rightarrow> Inl err
             | Inr (r, n, rest') \<Rightarrow> Inr (r, root, rest'))
          else if name type = PARTIAL then
            (case constructPartial rest of
               Inl err \<Rightarrow> Inl err
             | Inr (n, rest') \<Rightarrow> Inr (Value n, root, rest'))
          else Inl InvalidExpressionType)"
| "constructConditional root kind stack =
     (let root1 = Scope (Some (type_or_conditional root)) (nodes root)
                    (Some (conditions_or_empty root)) (els root) (elsif root)
      in if kind = Some ELSE then
           (case make fresh (Some END_IF) stack of
              Inl err \<Rightarrow> Inl err
            | Inr (r, e, rest') \<Rightarrow> Inr (r, set_els root1 e, rest'))
         else if kind = Some ELSIF then
           (case constructConditional fresh None stack of
              Inl err \<Rightarrow> Inl err
            | Inr (r, e, rest') \<Rightarrow> Inr (r, set_elsif root1 e, rest'))
         else
           (case conditional_header (conditions_or_empty root) None stack of
              (conds, rest) \<Rightarrow>
                (case make (set_conditions root1 conds) (Some END_IF) rest of
                   Inl err \<Rightarrow> Inl err
                 | Inr (r, root2, rest') \<Rightarrow> Inr (Value (Expression root2), root2, rest'))))"
| "constructEach root stack =
     (case each_header [] stack of
        (conds, rest) \<Rightarrow>
          (case make (set_conditions (set_type root LoopExpression) conds) (Some END_EACH) rest of
             Inl err \<Rightarrow> Inl err
           | Inr (r, root', rest') \<Rightarrow> Inr (root', rest')))"
  by pat_completeness auto

text \<open>\<^verbatim>\<open>make\<close> goes on with the stack that \<^verbatim>\<open>constructExpression\<close> returns; none of the
  four functions returns a stack longer than the one it was given, so they terminate.\<close>

lemmas parse_psimps = make.psimps constructExpression.psimps constructConditional.psimps
  constructEach.psimps

lemma parse_length:
  "make_constructExpression_constructConditional_constructEach_dom (Inl (Inl (root, END, stack))) \<Longrightarrow>
     make root END stack = Inr (r, root', stack') \<Longrightarrow> length stack' \<le> length stack"
  "make_constructExpression_constructConditional_constructEach_dom (Inl (Inr (root, END, stack))) \<Longrightarrow>
     constructExpression root END stack = Inr (r, root', stack') \<Longrightarrow> length stack' \<le> length stack"
  "make_constructExpression_constructConditional_constructEach_dom (Inr (Inl (root, kind, stack))) \<Longrightarrow>
     constructConditional root kind stack = Inr (r, root', stack') \<Longrightarrow> length stack' \<le> length stack"
  "make_constructExpression_constructConditional_constructEach_dom (Inr (Inr (root, stack))) \<Longrightarrow>
     constructEach root stack = Inr (root', stack') \<Longrightarrow> length stack' \<le> length stack"
proof (induction root END stack and root END stack and root kind stack and root stack
    arbitrary: r root' stack' and r root' stack' and r root' stack' and root' stack'
    rule: make_constructExpression_constructConditional_constructEach.pinduct)
  case (1 root END stack)
  show ?case
  proof (cases stack)
    case Nil
    with 1 show ?thesis by (simp add: parse_psimps)
  next
    case (Cons node rest)
    consider (c_raw) "name node = START_RAW" | (c_prop) "name node \<noteq> START_RAW" "name node = START_PROP"
      | (c_expr) "name node \<noteq> START_RAW" "name node \<noteq> START_PROP" "name node = START_EXPR"
      | (c_endexpr) "name node \<noteq> START_RAW" "name node \<noteq> START_PROP" "name node \<noteq> START_EXPR"
          "name node = END_EXPR"
      | (c_text) "name node \<noteq> START_RAW" "name node \<noteq> START_PROP" "name node \<noteq> START_EXPR"
          "name node \<noteq> END_EXPR"
      by auto
    then show ?thesis
    proof cases
      case c_raw
      with Cons "1.prems" "1.hyps" obtain p rest' where
        a: "constructProperty False rest = Inr (p, rest')" and
        b: "make (push root p) END rest' = Inr (r, root', stack')"
        by (auto simp: parse_psimps split: sum.splits)
      from "1.IH"(1)[OF Cons c_raw a refl b] constructProperty_length[OF a] Cons show ?thesis by simp
    next
      case c_prop
      with Cons "1.prems" "1.hyps" obtain p rest' where
        a: "constructProperty True rest = Inr (p, rest')" and
        b: "make (push root p) END rest' = Inr (r, root', stack')"
        by (auto simp: parse_psimps split: sum.splits)
      from "1.IH"(2)[OF Cons c_prop a refl b] constructProperty_length[OF a] Cons show ?thesis by simp
    next
      case c_expr
      with Cons "1.prems" "1.hyps" obtain res root1 rest' where
        a: "constructExpression root END rest = Inr (res, root1, rest')" and
        b: "(case res of Value n \<Rightarrow> make (push root1 n) END rest' | JFalse \<Rightarrow> make root1 END rest'
              | _ \<Rightarrow> Inr (Null, root1, rest')) = Inr (r, root', stack')"
        by (auto simp: parse_psimps split: sum.splits)
      from "1.IH"(3)[OF Cons c_expr a] have c: "length rest' \<le> length rest" .
      show ?thesis
      proof (cases res)
        case (Value n)
        with b "1.IH"(4)[OF Cons c_expr a refl refl Value] c Cons show ?thesis by simp
      next
        case JFalse
        with b "1.IH"(5)[OF Cons c_expr a refl refl JFalse] c Cons show ?thesis by simp
      qed (use b c Cons in auto)
    next
      case c_endexpr
      with Cons "1.prems" "1.hyps" "1.IH"(6)[OF Cons c_endexpr] show ?thesis
        by (simp add: parse_psimps le_SucI)
    next
      case c_text
      with Cons "1.prems" "1.hyps" "1.IH"(7)[OF Cons c_text] show ?thesis
        by (simp add: parse_psimps le_SucI)
    qed
  qed
next
  case (2 root END stack)
  show ?case
  proof (cases stack)
    case Nil
    with 2 show ?thesis by (simp add: parse_psimps)
  next
    case (Cons type rest)
    from "2.prems" "2.hyps" Cons "2.IH"[OF Cons] show ?thesis
      by (auto simp: parse_psimps le_SucI split: if_splits sum.splits prod.splits
          dest: constructComment_length constructPartial_length)
  qed
next
  case (3 root kind stack)
  from "3.prems" "3.hyps" "3.IH" show ?case
    by (auto simp: parse_psimps Let_def split: if_splits sum.splits prod.splits
        dest!: conditional_header_length) (blast intro: order_trans)
next
  case (4 root stack)
  from "4.prems" "4.hyps" "4.IH" show ?case
    by (auto simp: parse_psimps Let_def split: if_splits sum.splits prod.splits
        dest!: each_header_length) (blast intro: order_trans)
qed

lemma parse_total: "All make_constructExpression_constructConditional_constructEach_dom"
  apply (relation "measure (\<lambda>x. case x of
      Inl (Inl (root, END, stack)) \<Rightarrow> 4 * length stack
    | Inl (Inr (root, END, stack)) \<Rightarrow> 4 * length stack + 3
    | Inr (Inl (root, kind, stack)) \<Rightarrow> 4 * length stack + (if kind = Some ELSIF then 2 else 1)
    | Inr (Inr (root, stack)) \<Rightarrow> 4 * length stack + 1)")
  apply simp_all
  subgoal for stack x21 x22 b x y using constructProperty_length[of False x22 x y] by auto
  subgoal for stack x21 x22 b x y using constructProperty_length[of True x22 x y] by auto
  subgoal for root END stack x21 x22 b x y xa ya x1
    using parse_length(2)[of root END x22 "Value x1" xa ya] by auto
  subgoal for root END stack x21 x22 b x y xa ya
    using parse_length(2)[of root END x22 JFalse xa ya] by auto
  subgoal for root kind stack x xa y
    using conditional_header_length[of "conditions_or_empty root" None stack xa y] by auto
  subgoal for stack x y using each_header_length[OF sym, of x y "[]" stack] by auto
  done

termination make
  by (rule parse_total)

declare make.simps [simp del] constructExpression.simps [simp del]
  constructConditional.simps [simp del] constructEach.simps [simp del]

text \<open>The constructor \<^verbatim>\<open>Tree\<close> sets \<^verbatim>\<open>this.root\<close>; \<^verbatim>\<open>make()\<close> without arguments parses
  the whole stack into it, with \<^verbatim>\<open>END\<close> undefined.\<close>

definition Tree_root :: scope where
  "Tree_root = Scope (Some Template) [] None None None"

section \<open>Notions used in the properties\<close>

text \<open>The source text of a chain of keyed lookups on \<^verbatim>\<open>data\<close>, and the keys that an
  identifier without quotes stands for.\<close>

definition lookup_chain :: "string list \<Rightarrow> string" where
  "lookup_chain keys = ''data'' @ concat (map (\<lambda>k. ''['' @ [quote] @ k @ [quote] @ '']'') keys)"

definition path_keys :: "string \<Rightarrow> string list" where
  "path_keys v = (if v = ''.'' then [''.''] else split CHR ''.'' v)"

text \<open>
  The source text that \<^verbatim>\<open>compileProperty\<close> builds around an identifier expression
  \<open>x\<close>, without and with encoding, written out.
\<close>

abbreviation typeof_raw :: "string \<Rightarrow> string" where
  "typeof_raw x \<equiv> ''( typeof '' @ x @ '' === 'function' ? '' @ x @ ''() : '' @ x @ '' )''"

abbreviation typeof_encoded :: "string \<Rightarrow> string" where
  "typeof_encoded x \<equiv>
     ''( typeof '' @ x @ '' === 'function' ? encode('' @ x @ ''()) : encode('' @ x @ '') )''"

text \<open>The pieces of a path, put together again with a dot between neighbours.\<close>

fun dotted :: "string list \<Rightarrow> string" where
  "dotted [] = []"
| "dotted [k] = k"
| "dotted (k # l # ks) = k @ ''.'' @ dotted (l # ks)"

text \<open>The source text \<^verbatim>\<open>((c)?a:b)\<close> that \<^verbatim>\<open>compileConditional\<close> returns.\<close>

definition ternary :: "string \<Rightarrow> string \<Rightarrow> string \<Rightarrow> string" where
  "ternary c a b = ''(('' @ c @ '')?'' @ a @ '':'' @ b @ '')''"

text \<open>
  Every conditional that compilation reaches has a condition list that is not empty:
  \<open>nodes_ok\<close> for a node list given to \<^verbatim>\<open>process\<close>, \<open>conditional_ok\<close> for an object
  given to \<^verbatim>\<open>compileConditional\<close>.
\<close>

fun nodes_ok :: "node list \<Rightarrow> bool"
  and node_ok :: "node \<Rightarrow> bool"
  and els_ok :: "scope option \<Rightarrow> bool"
  and elsif_ok :: "scope option \<Rightarrow> bool"
  and conditional_ok :: "scope \<Rightarrow> bool"
where
  "nodes_ok [] = True"
| "nodes_ok (n # ns) = (node_ok n \<and> nodes_ok ns)"
| "node_ok (Expression (Scope t ns cso e ei)) =
     (case t of
        Some ConditionalExpression \<Rightarrow> conditional_ok (Scope t ns cso e ei)
      | Some LoopExpression \<Rightarrow> nodes_ok ns
      | _ \<Rightarrow> True)"
| "node_ok _ = True"
| "els_ok None = True"
| "els_ok (Some (Scope t ns cso e ei)) = nodes_ok ns"
| "elsif_ok None = True"
| "elsif_ok (Some s) = conditional_ok s"
| "conditional_ok (Scope t ns cso e ei) =
     (cso \<noteq> Some [] \<and> els_ok e \<and> elsif_ok ei \<and> nodes_ok ns)"

text \<open>A node list has no two neighbours that are both \<^verbatim>\<open>Text\<close> nodes; \<open>merged\<close> says so of
  the node list of an object and of every node list below it (in its nodes, its \<^verbatim>\<open>els\<close> and
  its \<^verbatim>\<open>elsif\<close>).\<close>

fun is_text :: "node \<Rightarrow> bool" where
  "is_text (Text v) = True"
| "is_text _ = False"

fun no_adjacent_text :: "node list \<Rightarrow> bool" where
  "no_adjacent_text [] = True"
| "no_adjacent_text [n] = True"
| "no_adjacent_text (n # m # ns) = (\<not> (is_text n \<and> is_text m) \<and> no_adjacent_text (m # ns))"

fun merged_list :: "node list \<Rightarrow> bool"
  and merged_node :: "node \<Rightarrow> bool"
  and merged_option :: "scope option \<Rightarrow> bool"
  and merged :: "scope \<Rightarrow> bool"
where
  "merged_list [] = True"
| "merged_list (n # ns) = (merged_node n \<and> merged_list ns)"
| "merged_node (Expression s) = merged s"
| "merged_node _ = True"
| "merged_option None = True"
| "merged_option (Some s) = merged s"
| "merged (Scope t ns cs e ei) =
     (no_adjacent_text ns \<and> merged_list ns \<and> merged_option e \<and> merged_option ei)"

text \<open>A stack holds the end of a comment: a \<^verbatim>\<open>COMMENT\<close> token with an \<^verbatim>\<open>END_EXPR\<close> token
  right after it.\<close>

fun has_comment_end :: "token list \<Rightarrow> bool" where
  "has_comment_end (a # b # rest) =
     ((name a = COMMENT \<and> name b = END_EXPR) \<or> has_comment_end (b # rest))"
| "has_comment_end _ = False"

section \<open>Properties of the compiler\<close>

lemma join_concat: "join [] xs = concat xs"
  by (induction "[] :: string" xs rule: join.induct) auto


lemma normalizeIdentifier_chain: "normalizeIdentifier v = lookup_chain (path_keys v)"
  by (simp add: normalizeIdentifier_def lookup_chain_def path_keys_def join_concat quote_def)

lemma compileConditional_nonempty: "compileConditional n = Inr y \<Longrightarrow> y \<noteq> []"
  by (cases n) (auto split: option.splits if_splits sum.splits)

lemma no_missing_conditions:
  "nodes_ok ns \<Longrightarrow> commands ns \<noteq> Inl MissingConditions"
  "node_ok n \<Longrightarrow> processNode n \<noteq> Inl MissingConditions"
  "nodes_ok ns \<Longrightarrow> process ns \<noteq> Inl MissingConditions"
  "els_ok e \<Longrightarrow> compileEls e \<noteq> Inl MissingConditions"
  "elsif_ok ei \<Longrightarrow> compileElsif ei \<noteq> Inl MissingConditions"
  "conditional_ok s \<Longrightarrow> compileConditional s \<noteq> Inl MissingConditions"
  "nodes_ok (nodes l) \<Longrightarrow> compileLoop l \<noteq> Inl MissingConditions"
  by (induction ns and n and ns and e and ei and s and l
      rule: commands_processNode_process_compileEls_compileElsif_compileConditional_compileLoop.induct)
    (auto split: sum.splits option.splits scope_type.splits, blast+)

subsection \<open>Filters\<close>


subsection \<open>Identifiers of properties\<close>

lemma split_on_nonempty: "split_on sep piece s \<noteq> []"
  by (induction s arbitrary: piece) auto

lemma dotted_Cons: "ks \<noteq> [] \<Longrightarrow> dotted (k # ks) = k @ ''.'' @ dotted ks"
  by (cases ks) auto

lemma dotted_split_on: "dotted (split_on CHR ''.'' piece s) = piece @ s"
  by (induction s arbitrary: piece) (auto simp: dotted_Cons split_on_nonempty)

lemma split_on_pieces:
  "sep \<notin> set piece \<Longrightarrow> list_all (\<lambda>k. sep \<notin> set k) (split_on sep piece s)"
  by (induction s arbitrary: piece) auto

lemma property_value_text:
  "property_value x False = typeof_raw x" "property_value x True = typeof_encoded x"
  by (simp_all add: property_value_def quote_def)

text \<open>
  C10. For a \<^verbatim>\<open>Property\<close> or \<^verbatim>\<open>RawProperty\<close> node whose value \<open>v\<close> contains a single or
  a double quote, the compiled text is
  \<^verbatim>\<open>( typeof v === 'function' ? v() : v )\<close>, with \<^verbatim>\<open>encode(...)\<close> around both branches
  for a \<^verbatim>\<open>Property\<close>, threaded through the filters: the value is emitted as it is, three
  times, and nothing is looked up in \<^verbatim>\<open>data\<close>. For a value without quotes the same text
  is built around a chain of keyed lookups \<^verbatim>\<open>data['k1']['k2']...\<close>, with one key per
  piece of the value between dots (the pieces hold no dot and give the value back when put
  together with dots), and the value \<^verbatim>\<open>.\<close> looks up the one key \<^verbatim>\<open>.\<close>.
\<close>

theorem quoted_identifier_verbatim:
  "(quote \<in> set v \<or> dquote \<in> set v \<longrightarrow>
      processNode (RawProperty v fs) = Inr (foldl nest_filter (typeof_raw v) fs) \<and>
      processNode (Property v fs) = Inr (foldl nest_filter (typeof_encoded v) fs)) \<and>
   (quote \<notin> set v \<and> dquote \<notin> set v \<longrightarrow>
      processNode (RawProperty v fs) =
        Inr (foldl nest_filter
               (typeof_raw (''data'' @ concat (map (\<lambda>k. ''['' @ [quote] @ k @ [quote] @ '']'')
                                                  (path_keys v)))) fs) \<and>
      processNode (Property v fs) =
        Inr (foldl nest_filter
               (typeof_encoded (''data'' @ concat (map (\<lambda>k. ''['' @ [quote] @ k @ [quote] @ '']'')
                                                      (path_keys v)))) fs)) \<and>
   path_keys ''.'' = [''.''] \<and>
   (v \<noteq> ''.'' \<longrightarrow>
      dotted (path_keys v) = v \<and> list_all (\<lambda>k. CHR ''.'' \<notin> set k) (path_keys v))"
  using dotted_split_on[of "[]" v] split_on_pieces[of "CHR ''.''" "[]" v]
    normalizeIdentifier_chain[of v]
  by (simp add: compileProperty_def property_identifier_def lookup_chain_def
      property_value_text path_keys_def split_def)

theorem quoted_identifier_verbatim_witness:
  "processNode (RawProperty ('''a.b'' @ [quote]) []) =
     Inr ''( typeof 'a.b' === 'function' ? 'a.b'() : 'a.b' )'' \<and>
   processNode (Property ('''a.b'' @ [quote]) []) =
     Inr ''( typeof 'a.b' === 'function' ? encode('a.b'()) : encode('a.b') )'' \<and>
   processNode (RawProperty ''a.b'' []) =
     Inr ''( typeof data['a']['b'] === 'function' ? data['a']['b']() : data['a']['b'] )'' \<and>
   processNode (Property ''.'' []) =
     Inr ''( typeof data['.'] === 'function' ? encode(data['.']()) : encode(data['.']) )'' \<and>
   dotted (path_keys ''a.b'') = ''a.b'' \<and> path_keys ''a.b'' = [''a'', ''b'']"
proof -
  have q: "quote \<in> set ('''a.b'' @ [quote])"
    and n: "quote \<notin> set ''a.b'' \<and> dquote \<notin> set ''a.b''" "''a.b'' \<noteq> ''.''"
    and d: "quote \<notin> set ''.'' \<and> dquote \<notin> set ''.''"
    by (simp_all add: quote_def dquote_def)
  have k: "path_keys ''a.b'' = [''a'', ''b'']" "path_keys ''.'' = [''.'']"
    by (simp_all add: path_keys_def split_def)
  from q quoted_identifier_verbatim[of "'''a.b'' @ [quote]" "[]"]
  have 1: "processNode (RawProperty ('''a.b'' @ [quote]) []) =
       Inr ''( typeof 'a.b' === 'function' ? 'a.b'() : 'a.b' )''"
    and 2: "processNode (Property ('''a.b'' @ [quote]) []) =
       Inr ''( typeof 'a.b' === 'function' ? encode('a.b'()) : encode('a.b') )''"
    by (simp_all add: quote_def)
  from n quoted_identifier_verbatim[of "''a.b''" "[]"]
  have 3: "processNode (RawProperty ''a.b'' []) =
       Inr ''( typeof data['a']['b'] === 'function' ? data['a']['b']() : data['a']['b'] )''"
    and 5: "dotted (path_keys ''a.b'') = ''a.b''"
    by (simp_all add: k quote_def)
  from d quoted_identifier_verbatim[of "''.''" "[]"]
  have 4: "processNode (Property ''.'' []) =
       Inr ''( typeof data['.'] === 'function' ? encode(data['.']()) : encode(data['.']) )''"
    by (simp add: k quote_def)
  from 1 2 3 4 5 k(1) show ?thesis by blast
qed

subsection \<open>Conditions of a conditional\<close>

text \<open>
  C9, as stated, fails: a conditional with one condition whose \<^verbatim>\<open>elsif\<close> has none
  (the tree of \<^verbatim>\<open>{%if a%}A{%elsif%}B{%endif%}\<close>) raises the error, because
  \<^verbatim>\<open>compileConditional\<close> compiles the \<^verbatim>\<open>elsif\<close> before it returns.
\<close>

theorem missing_conditions_counterexample:
  "conditions (Scope (Some ConditionalExpression) [Text ''A''] (Some [Identifier ''a'']) None
      (Some (Scope (Some ConditionalExpression) [Text ''B''] (Some []) None None)))
     = Some [Identifier ''a''] \<and>
   compileConditional (Scope (Some ConditionalExpression) [Text ''A''] (Some [Identifier ''a''])
      None (Some (Scope (Some ConditionalExpression) [Text ''B''] (Some []) None None)))
     = Inl MissingConditions"
  by simp

text \<open>
  C9, amended. Compiling a conditional whose condition list is empty raises
  \<open>MissingConditions\<close>; compiling a conditional does not raise it when the conditional
  itself and every conditional that compilation reaches from it (in its body, its
  \<^verbatim>\<open>els\<close> body, its \<^verbatim>\<open>elsif\<close> chain and the bodies of loops) has at least one
  condition.
\<close>

theorem missing_conditions_amended:
  "compileConditional (Scope t ns (Some []) e ei) = Inl MissingConditions \<and>
   (conditional_ok s \<longrightarrow> compileConditional s \<noteq> Inl MissingConditions)"
  using no_missing_conditions(6) by simp

theorem missing_conditions_amended_witness:
  "conditional_ok (Scope (Some ConditionalExpression) [Text ''A''] (Some [Identifier ''a'']) None
      (Some (Scope (Some ConditionalExpression) [Text ''B''] (Some [Identifier ''b'']) None None)))
   \<and> compileConditional (Scope (Some ConditionalExpression) [Text ''A''] (Some [Identifier ''a''])
      None (Some (Scope (Some ConditionalExpression) [Text ''B''] (Some [Identifier ''b'']) None
      None))) \<noteq> Inl MissingConditions"
proof -
  have h: "conditional_ok (Scope (Some ConditionalExpression) [Text ''A''] (Some [Identifier ''a''])
      None (Some (Scope (Some ConditionalExpression) [Text ''B''] (Some [Identifier ''b'']) None
      None)))"
    by simp
  from h missing_conditions_amended[of _ _ _ _ "Scope (Some ConditionalExpression) [Text ''A'']
      (Some [Identifier ''a'']) None (Some (Scope (Some ConditionalExpression) [Text ''B'']
      (Some [Identifier ''b'']) None None))"]
  show ?thesis by blast
qed

subsection \<open>The false branch of a conditional\<close>

text \<open>
  C1, as stated, fails: for a conditional that has both an \<^verbatim>\<open>els\<close> body and an
  \<^verbatim>\<open>elsif\<close>, the false branch of the compiled expression is the \<^verbatim>\<open>els\<close> body, and
  the compiled \<^verbatim>\<open>elsif\<close> is dropped.
\<close>

theorem else_before_elsif_counterexample:
  "compileEls (Some (Scope None [Text ''C''] None None None)) = Inr (Some ('''C'' @ [quote])) \<and>
   compileElsif (Some (Scope (Some ConditionalExpression) [Text ''B''] (Some [Identifier ''b''])
      None None)) = Inr (Some (''((data['b'])?'B':'' @ [quote, quote] @ '')'')) \<and>
   compileConditional (Scope (Some ConditionalExpression) [Text ''A''] (Some [Identifier ''a''])
      (Some (Scope None [Text ''C''] None None None))
      (Some (Scope (Some ConditionalExpression) [Text ''B''] (Some [Identifier ''b'']) None None)))
     = Inr ''((data['a'])?'A':'C')'' \<and>
   compileConditional (Scope (Some ConditionalExpression) [Text ''A''] (Some [Identifier ''a''])
      (Some (Scope None [Text ''C''] None None None))
      (Some (Scope (Some ConditionalExpression) [Text ''B''] (Some [Identifier ''b'']) None None)))
     \<noteq> Inr (''((data['a'])?'A':((data['b'])?'B':'' @ [quote, quote] @ ''))'')"
  by (simp add: condition_source_def normalizeIdentifier_def split_def join_elem_def fallback_def
      quote_def backslash_def)

text \<open>
  C1, amended. When the condition list is not empty and the body compiles, the false
  branch of the compiled expression is: the empty string literal when the conditional has
  neither \<^verbatim>\<open>els\<close> nor \<^verbatim>\<open>elsif\<close>; the compiled \<^verbatim>\<open>els\<close> body when there is one and
  its compiled text is not empty (whether or not there is an \<^verbatim>\<open>elsif\<close>, which must still
  compile); and the compiled \<^verbatim>\<open>elsif\<close> when there is one and the \<^verbatim>\<open>els\<close> body is absent
  or compiles to the empty text.
\<close>

theorem conditional_fallback_amended:
  "cs \<noteq> [] \<and> process ns = Inr body \<longrightarrow>
     (compileConditional (Scope t ns (Some cs) None None) =
        Inr (ternary (condition_source cs) body [quote, quote])) \<and>
     (compileEls (Some e) = Inr (Some x) \<and> x \<noteq> [] \<and> compileElsif ei = Inr f \<longrightarrow>
        compileConditional (Scope t ns (Some cs) (Some e) ei) =
          Inr (ternary (condition_source cs) body x)) \<and>
     (compileEls e' = Inr x' \<and> (x' = None \<or> x' = Some []) \<and> compileConditional n = Inr y \<longrightarrow>
        compileConditional (Scope t ns (Some cs) e' (Some n)) =
          Inr (ternary (condition_source cs) body y))"
  by (cases e')
    (auto simp: ternary_def fallback_def split: sum.splits dest: compileConditional_nonempty)

theorem conditional_fallback_amended_witness:
  "compileConditional (Scope (Some ConditionalExpression) [Text ''A''] (Some [Identifier ''a''])
      None None) = Inr (''((data['a'])?'A':'' @ [quote, quote] @ '')'') \<and>
   compileConditional (Scope (Some ConditionalExpression) [Text ''A''] (Some [Identifier ''a''])
      (Some (Scope None [Text ''C''] None None None)) None) = Inr ''((data['a'])?'A':'C')'' \<and>
   compileConditional (Scope (Some ConditionalExpression) [Text ''A''] (Some [Identifier ''a''])
      (Some (Scope None [] None None None))
      (Some (Scope (Some ConditionalExpression) [Text ''B''] (Some [Identifier ''b'']) None None)))
     = Inr (''((data['a'])?'A':((data['b'])?'B':'' @ [quote, quote] @ ''))'')"
proof -
  let ?cs = "[Identifier ''a'']" and ?A = "'''A'' @ [quote]" and ?C = "'''C'' @ [quote]"
  let ?B = "''((data['b'])?'B':'' @ [quote, quote] @ '')''"
  have c: "?cs \<noteq> []" by simp
  have b: "process [Text ''A''] = Inr ?A"
    by (simp add: quote_def backslash_def)
  have e: "compileEls (Some (Scope None [Text ''C''] None None None)) = Inr (Some ?C)"
    "?C \<noteq> []" "compileElsif None = Inr None"
    by (simp_all add: quote_def backslash_def)
  have f: "compileEls (Some (Scope None [] None None None)) = Inr (Some [])"
    "compileConditional (Scope (Some ConditionalExpression) [Text ''B''] (Some [Identifier ''b''])
       None None) = Inr ?B"
    by (simp_all add: condition_source_def normalizeIdentifier_def split_def join_elem_def
        fallback_def quote_def backslash_def)
  have t: "ternary (condition_source ?cs) ?A [quote, quote]
             = ''((data['a'])?'A':'' @ [quote, quote] @ '')''"
    "ternary (condition_source ?cs) ?A ?C = ''((data['a'])?'A':'C')''"
    "ternary (condition_source ?cs) ?A ?B
       = ''((data['a'])?'A':((data['b'])?'B':'' @ [quote, quote] @ ''))''"
    by (simp_all add: ternary_def condition_source_def normalizeIdentifier_def split_def
        join_elem_def quote_def)
  from c b e
    conditional_fallback_amended[of ?cs "[Text ''A'']" ?A "Some ConditionalExpression"
      "Scope None [Text ''C''] None None None" ?C None None None None]
  have "compileConditional (Scope (Some ConditionalExpression) [Text ''A''] (Some ?cs) None None)
      = Inr (ternary (condition_source ?cs) ?A [quote, quote])"
    and "compileConditional (Scope (Some ConditionalExpression) [Text ''A''] (Some ?cs)
      (Some (Scope None [Text ''C''] None None None)) None)
      = Inr (ternary (condition_source ?cs) ?A ?C)"
    by blast+
  moreover from c b f
    conditional_fallback_amended[of ?cs "[Text ''A'']" ?A "Some ConditionalExpression" _ _ _ _
      "Some (Scope None [] None None None)" "Some []"
      "Scope (Some ConditionalExpression) [Text ''B''] (Some [Identifier ''b'']) None None" ?B]
  have "compileConditional (Scope (Some ConditionalExpression) [Text ''A''] (Some ?cs)
      (Some (Scope None [] None None None))
      (Some (Scope (Some ConditionalExpression) [Text ''B''] (Some [Identifier ''b'']) None None)))
     = Inr (ternary (condition_source ?cs) ?A ?B)"
    by blast
  ultimately show ?thesis unfolding t by blast
qed

subsection \<open>Loops without a source\<close>





section \<open>Properties of the parser\<close>

lemma merged_list_append [simp]: "merged_list (xs @ ys) = (merged_list xs \<and> merged_list ys)"
  by (induction xs) auto

lemma merged_list_butlast: "merged_list ns \<Longrightarrow> merged_list (butlast ns)"
  by (induction ns) auto

lemma no_adjacent_text_butlast: "no_adjacent_text ns \<Longrightarrow> no_adjacent_text (butlast ns)"
  by (induction ns rule: no_adjacent_text.induct) auto

lemma no_adjacent_text_snoc:
  "no_adjacent_text (ns @ [n]) =
     (no_adjacent_text ns \<and> \<not> (ns \<noteq> [] \<and> is_text (last ns) \<and> is_text n))"
  by (induction ns rule: no_adjacent_text.induct) auto

lemma merged_push:
  "merged root \<Longrightarrow> merged_node n \<Longrightarrow> \<not> is_text n \<Longrightarrow> merged (push root n)"
  by (cases root) (simp add: push_def no_adjacent_text_snoc)

lemma last_butlast_text:
  "no_adjacent_text ns \<Longrightarrow> ns \<noteq> [] \<Longrightarrow> is_text (last ns) \<Longrightarrow> butlast ns \<noteq> [] \<Longrightarrow>
   \<not> is_text (last (butlast ns))"
  by (induction ns rule: no_adjacent_text.induct) (auto split: if_splits)

lemma merged_add_text: "merged root \<Longrightarrow> merged (add_text root c)"
  by (cases root)
    (auto simp: add_text_def push_def pop_def no_adjacent_text_snoc merged_list_butlast
      no_adjacent_text_butlast last_butlast_text split: node.splits)

lemma property_loop_node:
  "property_loop encoded v stack = Inr (p, stack') \<Longrightarrow> merged_node p \<and> \<not> is_text p"
  by (induction encoded v stack rule: property_loop.induct)
    (auto simp: property_node_def split: if_splits sum.splits)

lemma constructProperty_node:
  "constructProperty encoded stack = Inr (p, stack') \<Longrightarrow> merged_node p \<and> \<not> is_text p"
  unfolding constructProperty_def by (rule property_loop_node)

lemma partial_loop_node:
  "partial_loop v as stack = Inr (p, stack') \<Longrightarrow> merged_node p \<and> \<not> is_text p"
  by (induction v as stack rule: partial_loop.induct) (auto split: if_splits)

lemma constructPartial_node:
  "constructPartial stack = Inr (p, stack') \<Longrightarrow> merged_node p \<and> \<not> is_text p"
  unfolding constructPartial_def by (rule partial_loop_node)

lemma comment_loop_false: "fst (comment_loop previous stack) = JFalse"
  by (induction previous stack rule: comment_loop.induct)
    (subst comment_loop.simps, auto split: list.splits prod.splits)

lemma constructComment_false: "constructComment stack = (r, stack') \<Longrightarrow> r = JFalse"
  unfolding constructComment_def using comment_loop_false[of None stack] by simp

lemma merged_fresh: "merged fresh"
  by (simp add: fresh_def)

lemma merged_updates:
  "merged root \<Longrightarrow> merged (set_conditions root cs)"
  "merged root \<Longrightarrow> merged (set_type root t)"
  "merged root \<Longrightarrow> merged e \<Longrightarrow> merged (set_els root e)"
  "merged root \<Longrightarrow> merged e \<Longrightarrow> merged (set_elsif root e)"
  "merged root \<Longrightarrow>
     merged (Scope (Some (type_or_conditional root)) (nodes root) (Some (conditions_or_empty root))
       (els root) (elsif root))"
  by (cases root; simp add: set_conditions_def set_type_def set_els_def set_elsif_def)+

lemma parse_merged:
  "merged root \<Longrightarrow> make root END stack = Inr (r, root', stack') \<Longrightarrow>
     merged root' \<and> (\<forall>n. r = Value n \<longrightarrow> merged_node n \<and> \<not> is_text n)"
  "merged root \<Longrightarrow> constructExpression root END stack = Inr (r, root', stack') \<Longrightarrow>
     merged root' \<and> (\<forall>n. r = Value n \<longrightarrow> merged_node n \<and> \<not> is_text n)"
  "merged root \<Longrightarrow> constructConditional root kind stack = Inr (r, root', stack') \<Longrightarrow>
     merged root' \<and> (\<forall>n. r = Value n \<longrightarrow> merged_node n \<and> \<not> is_text n)"
  "merged root \<Longrightarrow> constructEach root stack = Inr (root', stack') \<Longrightarrow> merged root'"
proof (induction root END stack and root END stack and root kind stack and root stack
    arbitrary: r root' stack' and r root' stack' and r root' stack' and root' stack'
    rule: make_constructExpression_constructConditional_constructEach.induct)
  case (1 root END stack)
  show ?case
  proof (cases stack)
    case Nil
    with "1.prems" show ?thesis by (auto simp: make.simps)
  next
    case (Cons node rest)
    consider (c_raw) "name node = START_RAW" | (c_prop) "name node \<noteq> START_RAW" "name node = START_PROP"
      | (c_expr) "name node \<noteq> START_RAW" "name node \<noteq> START_PROP" "name node = START_EXPR"
      | (c_endexpr) "name node \<noteq> START_RAW" "name node \<noteq> START_PROP" "name node \<noteq> START_EXPR"
          "name node = END_EXPR"
      | (c_text) "name node \<noteq> START_RAW" "name node \<noteq> START_PROP" "name node \<noteq> START_EXPR"
          "name node \<noteq> END_EXPR"
      by auto
    then show ?thesis
    proof cases
      case c_raw
      with Cons "1.prems" obtain p rest' where
        a: "constructProperty False rest = Inr (p, rest')" and
        b: "make (push root p) END rest' = Inr (r, root', stack')"
        by (auto simp: make.simps split: sum.splits)
      from constructProperty_node[OF a] "1.prems"(1) have "merged (push root p)"
        by (simp add: merged_push)
      from "1.IH"(1)[OF Cons c_raw a refl this b] show ?thesis .
    next
      case c_prop
      with Cons "1.prems" obtain p rest' where
        a: "constructProperty True rest = Inr (p, rest')" and
        b: "make (push root p) END rest' = Inr (r, root', stack')"
        by (auto simp: make.simps split: sum.splits)
      from constructProperty_node[OF a] "1.prems"(1) have "merged (push root p)"
        by (simp add: merged_push)
      from "1.IH"(2)[OF Cons c_prop a refl this b] show ?thesis .
    next
      case c_expr
      with Cons "1.prems" obtain res root1 rest' where
        a: "constructExpression root END rest = Inr (res, root1, rest')" and
        b: "(case res of Value n \<Rightarrow> make (push root1 n) END rest' | JFalse \<Rightarrow> make root1 END rest'
              | _ \<Rightarrow> Inr (Null, root1, rest')) = Inr (r, root', stack')"
        by (auto simp: make.simps split: sum.splits)
      from "1.IH"(3)[OF Cons c_expr "1.prems"(1) a]
      have c: "merged root1" "\<And>n. res = Value n \<Longrightarrow> merged_node n \<and> \<not> is_text n" by auto
      show ?thesis
      proof (cases res)
        case (Value n)
        with c have "merged (push root1 n)" by (simp add: merged_push)
        from "1.IH"(4)[OF Cons c_expr a refl refl Value this] b Value show ?thesis by simp
      next
        case JFalse
        with b "1.IH"(5)[OF Cons c_expr a refl refl JFalse c(1)] show ?thesis by simp
      qed (use b c in auto)
    next
      case c_endexpr
      with Cons "1.prems" "1.IH"(6)[OF Cons c_endexpr] show ?thesis
        by (simp add: make.simps)
    next
      case c_text
      with Cons "1.prems" "1.IH"(7)[OF Cons c_text merged_add_text] show ?thesis
        by (simp add: make.simps)
    qed
  qed
next
  case (2 root END stack)
  show ?case
  proof (cases stack)
    case Nil
    with 2 show ?thesis by (auto simp: constructExpression.simps)
  next
    case (Cons type rest)
    from "2.prems" Cons "2.IH"[OF Cons] merged_fresh show ?thesis
      by (auto simp: constructExpression.simps split: if_splits sum.splits prod.splits
          dest: constructComment_false constructPartial_node)
  qed
next
  case (3 root kind stack)
  let ?root1 = "Scope (Some (type_or_conditional root)) (nodes root)
    (Some (conditions_or_empty root)) (els root) (elsif root)"
  have m1: "merged ?root1" using "3.prems"(1) by (rule merged_updates(5))
  show ?case
  proof (cases "kind = Some ELSE")
    case True
    with "3.prems"(2) obtain e where
      a: "make fresh (Some END_IF) stack = Inr (r, e, stack')" and b: "root' = set_els ?root1 e"
      by (subst (asm) constructConditional.simps) (auto simp: Let_def split: sum.splits)
    from "3.IH"(1)[OF refl True merged_fresh a] b m1 show ?thesis
      by (simp add: merged_updates)
  next
    case False
    show ?thesis
    proof (cases "kind = Some ELSIF")
      case True
      with False "3.prems"(2) obtain e where
        a: "constructConditional fresh None stack = Inr (r, e, stack')"
        and b: "root' = set_elsif ?root1 e"
        by (subst (asm) constructConditional.simps) (auto simp: Let_def split: sum.splits)
      from "3.IH"(2)[OF refl False True merged_fresh a] b m1 show ?thesis
        by (simp add: merged_updates)
    next
      case F2: False
      obtain conds rest where h: "(conds, rest) = conditional_header (conditions_or_empty root) None stack"
        by (metis surj_pair)
      from False F2 "3.prems"(2) have
        "(case make (set_conditions ?root1 conds) (Some END_IF) rest of
            Inl err \<Rightarrow> Inl err
          | Inr (r, root2, rest') \<Rightarrow> Inr (Value (Expression root2), root2, rest'))
          = Inr (r, root', stack')"
        unfolding constructConditional.simps[of root kind stack] Let_def h[symmetric] by simp
      then obtain r1 where
        a: "make (set_conditions ?root1 conds) (Some END_IF) rest = Inr (r1, root', stack')"
        and b: "r = Value (Expression root')"
        by (auto split: sum.splits)
      from m1 have "merged (set_conditions ?root1 conds)" by (rule merged_updates(1))
      from "3.IH"(3)[OF refl False F2 h this a] b show ?thesis by simp
    qed
  qed
next
  case (4 root stack)
  obtain conds rest where h: "(conds, rest) = each_header [] stack"
    by (metis surj_pair)
  from "4.prems"(2) have
    "(case make (set_conditions (set_type root LoopExpression) conds) (Some END_EACH) rest of
        Inl err \<Rightarrow> Inl err
      | Inr (r, root', rest') \<Rightarrow> Inr (root', rest'))
      = Inr (root', stack')"
    unfolding constructEach.simps[of root stack] h[symmetric] by simp
  then obtain r1 where
    a: "make (set_conditions (set_type root LoopExpression) conds) (Some END_EACH) rest
          = Inr (r1, root', stack')"
    by (auto split: sum.splits)
  from "4.prems"(1) have "merged (set_conditions (set_type root LoopExpression) conds)"
    by (simp add: merged_updates)
  from "4.IH"[OF h this a] show ?case by simp
qed

lemma comment_loop_Nil: "comment_loop previous [] = (JFalse, [])"
  by (simp add: comment_loop.simps)

lemma comment_loop_Cons:
  "comment_loop previous (node # rest) =
     (if name node = COMMENT then
        (if map_option name previous = Some START_EXPR
         then (case comment_loop None rest of (r, rest') \<Rightarrow> comment_loop (Some node) rest')
         else comment_loop (Some node) rest)
      else if name node = END_EXPR then
        (if map_option name previous = Some COMMENT then (JFalse, rest)
         else comment_loop (Some node) rest)
      else comment_loop (Some node) rest)"
  by (simp add: comment_loop.simps[of previous "node # rest"])

lemma comment_loop_suffix: "suffix (snd (comment_loop previous stack)) stack"
proof (induction previous stack rule: comment_loop.induct)
  case (1 previous stack)
  show ?case
  proof (cases stack)
    case Nil
    then show ?thesis by (simp add: comment_loop.simps)
  next
    case (Cons node rest)
    show ?thesis
    proof (cases "name node = COMMENT \<and> map_option name previous = Some START_EXPR")
      case True
      obtain r rest' where a: "comment_loop None rest = (r, rest')" by force
      from "1.IH"(1)[OF Cons] True a have "suffix rest' rest" by simp
      moreover from "1.IH"(2)[OF Cons _ _ a[symmetric]] True
      have "suffix (snd (comment_loop (Some node) rest')) rest'" by simp
      ultimately have "suffix (snd (comment_loop (Some node) rest')) (node # rest)"
        by (meson suffix_order.trans suffix_ConsI)
      with Cons True a show ?thesis by (simp add: comment_loop_Cons)
    next
      case False
      with Cons "1.IH"(3-5)[OF Cons] show ?thesis
        by (auto simp: comment_loop_Cons suffix_ConsI)
    qed
  qed
qed

lemma comment_loop_unterminated:
  "\<not> has_comment_end stack \<Longrightarrow>
   \<not> (map_option name previous = Some COMMENT \<and> stack \<noteq> [] \<and> name (hd stack) = END_EXPR) \<Longrightarrow>
   comment_loop previous stack = (JFalse, [])"
proof (induction previous stack rule: comment_loop.induct)
  case (1 previous stack)
  show ?case
  proof (cases stack)
    case Nil
    then show ?thesis by (simp add: comment_loop.simps)
  next
    case (Cons node rest)
    have tail: "\<not> has_comment_end rest" using "1.prems"(1) Cons by (cases rest) auto
    have nxt: "\<not> (map_option name (Some node) = Some COMMENT \<and> rest \<noteq> [] \<and> name (hd rest) = END_EXPR)"
      using "1.prems"(1) Cons by (cases rest) auto
    show ?thesis
    proof (cases "name node = COMMENT \<and> map_option name previous = Some START_EXPR")
      case True
      from "1.IH"(1)[OF Cons _ _ tail] True have a: "comment_loop None rest = (JFalse, [])" by simp
      with Cons True show ?thesis by (simp add: comment_loop_Cons comment_loop_Nil)
    next
      case False
      with Cons "1.IH"(3-5)[OF Cons] tail nxt "1.prems"(2) show ?thesis
        by (auto simp: comment_loop_Cons)
    qed
  qed
qed

lemma comment_loop_simple:
  "map_option name previous \<noteq> Some COMMENT \<Longrightarrow>
   (body = [] \<longrightarrow> map_option name previous \<noteq> Some START_EXPR) \<Longrightarrow>
   (body \<noteq> [] \<longrightarrow> name (last body) \<noteq> START_EXPR) \<Longrightarrow>
   list_all (\<lambda>t. name t \<noteq> COMMENT) body \<Longrightarrow>
   comment_loop previous (body @ Token COMMENT c # Token END_EXPR d # rest) = (JFalse, rest)"
proof (induction body arbitrary: previous)
  case Nil
  then show ?case
    by (auto simp: comment_loop_Cons)
next
  case (Cons t body)
  from Cons.prems have "comment_loop (Some t) (body @ Token COMMENT c # Token END_EXPR d # rest)
      = (JFalse, rest)"
    by (intro Cons.IH) (auto split: if_splits)
  with Cons.prems show ?case
    by (auto simp: comment_loop_Cons)
qed

lemma make_comment:
  "END \<noteq> Some COMMENT \<Longrightarrow>
   make root END (Token START_EXPR c # Token COMMENT d # stack)
     = make root END (snd (constructComment stack))"
  using comment_loop_false[of None stack]
  by (cases "comment_loop None stack")
    (simp add: make.simps[of root END "Token START_EXPR c # Token COMMENT d # stack"]
      constructExpression.simps[of root END "Token COMMENT d # stack"] constructComment_def)

lemma property_loop_unterminated:
  "list_all (\<lambda>t. name t \<notin> {FILTER, END_RAW, END_PROP}) stack \<Longrightarrow>
   property_loop encoded v stack = Inl UnterminatedProperty"
  by (induction encoded v stack rule: property_loop.induct) auto

lemma make_Cons_text:
  "name node \<notin> {START_RAW, START_PROP, START_EXPR, END_EXPR} \<Longrightarrow>
   make root END (node # rest) = make (add_text root (capture node)) END rest"
  by (simp add: make.simps[of root END "node # rest"])

subsection \<open>Text nodes\<close>

text \<open>
  C4. Body parsing keeps node lists free of neighbouring \<^verbatim>\<open>Text\<close> nodes: when the root
  given to \<^verbatim>\<open>make\<close> has no two neighbouring \<^verbatim>\<open>Text\<close> nodes in any of its node lists
  (as the empty template root and every fresh body have), neither has the root that
  \<^verbatim>\<open>make\<close> leaves, at any depth. A token that becomes text after a \<^verbatim>\<open>Text\<close> sibling
  replaces that sibling by one \<^verbatim>\<open>Text\<close> node, whose value is the sibling's value followed by
  the token's text; after any other sibling, or none, it is appended as a new \<^verbatim>\<open>Text\<close>
  node.
\<close>

theorem text_siblings_merged:
  "(merged root \<and> make root END stack = Inr (r, root', stack') \<longrightarrow> merged root') \<and>
   (make Tree_root None stack = Inr (r, root', stack') \<longrightarrow> merged root') \<and>
   (name node \<notin> {START_RAW, START_PROP, START_EXPR, END_EXPR} \<and> nodes root = ns @ [Text p] \<longrightarrow>
      make root END (node # rest) =
        make (Scope (stype root) (ns @ [Text (p @ capture node)]) (conditions root) (els root)
                (elsif root)) END rest) \<and>
   (name node \<notin> {START_RAW, START_PROP, START_EXPR, END_EXPR} \<and>
    (nodes root = [] \<or> \<not> is_text (last (nodes root))) \<longrightarrow>
      make root END (node # rest) =
        make (Scope (stype root) (nodes root @ [Text (capture node)]) (conditions root) (els root)
                (elsif root)) END rest)"
proof (intro conjI impI)
  assume "merged root \<and> make root END stack = Inr (r, root', stack')"
  then show "merged root'" using parse_merged(1) by blast
next
  assume "make Tree_root None stack = Inr (r, root', stack')"
  moreover have "merged Tree_root" by (simp add: Tree_root_def)
  ultimately show "merged root'" using parse_merged(1) by blast
next
  assume a: "name node \<notin> {START_RAW, START_PROP, START_EXPR, END_EXPR} \<and> nodes root = ns @ [Text p]"
  then have "add_text root (capture node) =
      Scope (stype root) (ns @ [Text (p @ capture node)]) (conditions root) (els root) (elsif root)"
    by (simp add: add_text_def push_def pop_def)
  with a show "make root END (node # rest) =
      make (Scope (stype root) (ns @ [Text (p @ capture node)]) (conditions root) (els root)
        (elsif root)) END rest"
    by (simp add: make_Cons_text)
next
  assume a: "name node \<notin> {START_RAW, START_PROP, START_EXPR, END_EXPR} \<and>
    (nodes root = [] \<or> \<not> is_text (last (nodes root)))"
  then have "add_text root (capture node) =
      Scope (stype root) (nodes root @ [Text (capture node)]) (conditions root) (els root)
        (elsif root)"
    by (auto simp: add_text_def push_def split: node.splits)
  with a show "make root END (node # rest) =
      make (Scope (stype root) (nodes root @ [Text (capture node)]) (conditions root) (els root)
        (elsif root)) END rest"
    by (simp add: make_Cons_text)
qed

theorem text_siblings_merged_witness:
  "make Tree_root None [Token OTHER ''a'', Token WHITESPACE '' '', Token OTHER ''b'',
      Token START_PROP ''{{'', Token OTHER ''x'', Token END_PROP ''}}'', Token OTHER ''c'']
     = Inr (Value (Expression (Scope (Some Template) [Text ''a b'', Property ''x'' [], Text ''c'']
              None None None)),
            Scope (Some Template) [Text ''a b'', Property ''x'' [], Text ''c''] None None None, [])
   \<and> merged (Scope (Some Template) [Text ''a b'', Property ''x'' [], Text ''c''] None None None)
   \<and> make (Scope (Some Template) [Text ''a''] None None None) None [Token WHITESPACE '' '']
     = make (Scope (Some Template) [Text ''a ''] None None None) None []"
proof -
  let ?R = "Scope (Some Template) [Text ''a b'', Property ''x'' [], Text ''c''] None None None"
  have e: "make Tree_root None [Token OTHER ''a'', Token WHITESPACE '' '', Token OTHER ''b'',
      Token START_PROP ''{{'', Token OTHER ''x'', Token END_PROP ''}}'', Token OTHER ''c'']
     = Inr (Value (Expression ?R), ?R, [])"
    by code_simp
  have n: "name (Token WHITESPACE '' '') \<notin> {START_RAW, START_PROP, START_EXPR, END_EXPR} \<and>
    nodes (Scope (Some Template) [Text ''a''] None None None) = [] @ [Text ''a'']"
    by simp
  from e text_siblings_merged[of Tree_root None _ "Value (Expression ?R)" ?R "[]"]
  have "merged ?R" by blast
  moreover from n text_siblings_merged[where root = "Scope (Some Template) [Text ''a''] None None None"
      and END = None and node = "Token WHITESPACE '' ''" and ns = "[]" and p = "''a''"
      and rest = "[]"]
  have "make (Scope (Some Template) [Text ''a''] None None None) None [Token WHITESPACE '' '']
     = make (Scope (Some Template) [Text ''a ''] None None None) None []"
    by simp
  ultimately show ?thesis using e by blast
qed

subsection \<open>Unterminated properties\<close>

text \<open>
  C5. When no token of the stack after the start of a property is a filter separator or an
  end of a raw or encoded property, \<^verbatim>\<open>constructProperty\<close> raises the unterminated
  property error, and so does \<^verbatim>\<open>make\<close> on the start token followed by that stack,
  whatever it has accumulated: the parse has no tree, so there is nothing to compile.
\<close>

theorem unterminated_property_fatal:
  "list_all (\<lambda>t. name t \<notin> {FILTER, END_RAW, END_PROP}) stack \<longrightarrow>
     constructProperty encoded stack = Inl UnterminatedProperty \<and>
     make root END (Token START_PROP c # stack) = Inl UnterminatedProperty \<and>
     make root END (Token START_RAW c # stack) = Inl UnterminatedProperty"
proof
  assume "list_all (\<lambda>t. name t \<notin> {FILTER, END_RAW, END_PROP}) stack"
  then have "\<And>encoded. constructProperty encoded stack = Inl UnterminatedProperty"
    unfolding constructProperty_def by (rule property_loop_unterminated)
  then show "constructProperty encoded stack = Inl UnterminatedProperty \<and>
     make root END (Token START_PROP c # stack) = Inl UnterminatedProperty \<and>
     make root END (Token START_RAW c # stack) = Inl UnterminatedProperty"
    by (simp add: make.simps[of root END "Token START_PROP c # stack"]
        make.simps[of root END "Token START_RAW c # stack"])
qed

theorem unterminated_property_fatal_witness:
  "list_all (\<lambda>t. name t \<notin> {FILTER, END_RAW, END_PROP}) [Token OTHER ''test'', Token WHITESPACE '' '']
   \<and> make Tree_root None [Token START_PROP ''{{'', Token OTHER ''test'', Token WHITESPACE '' '']
       = Inl UnterminatedProperty"
proof -
  have h: "list_all (\<lambda>t. name t \<notin> {FILTER, END_RAW, END_PROP})
      [Token OTHER ''test'', Token WHITESPACE '' '']"
    by simp
  from h unterminated_property_fatal[of "[Token OTHER ''test'', Token WHITESPACE '' '']" True
      Tree_root None "''{{''"]
  show ?thesis by blast
qed

subsection \<open>Comments\<close>

text \<open>
  What holds of every comment: \<^verbatim>\<open>constructComment\<close> always returns \<^verbatim>\<open>false\<close> and a stack
  that is a suffix of the one it was given; it builds no node and raises no error. When
  the comment holds no comment marker and does not end in the start of an expression tag,
  the stack it returns starts right after the \<^verbatim>\<open>COMMENT\<close> and \<^verbatim>\<open>END_EXPR\<close> tokens that
  end the comment; when the stack holds no such pair, it returns the empty stack.
  \<^verbatim>\<open>make\<close>, on the start of an expression tag and a comment marker, goes on with the root
  it had and the stack that \<^verbatim>\<open>constructComment\<close> returns, and after a comment without an
  end it returns its root as it was, without an error.
\<close>

lemma constructComment_plain:
  "fst (constructComment stack) = JFalse \<and>
   suffix (snd (constructComment stack)) stack \<and>
   (list_all (\<lambda>t. name t \<noteq> COMMENT) body \<and> (body \<noteq> [] \<longrightarrow> name (last body) \<noteq> START_EXPR) \<longrightarrow>
      constructComment (body @ Token COMMENT c # Token END_EXPR d # rest) = (JFalse, rest)) \<and>
   (\<not> has_comment_end stack \<longrightarrow> constructComment stack = (JFalse, [])) \<and>
   (END \<noteq> Some COMMENT \<longrightarrow>
      make root END (Token START_EXPR c # Token COMMENT d # stack)
        = make root END (snd (constructComment stack))) \<and>
   (END \<noteq> Some COMMENT \<and> \<not> has_comment_end stack \<longrightarrow>
      make root END (Token START_EXPR c # Token COMMENT d # stack)
        = Inr (Value (Expression root), root, []))"
proof (intro conjI impI)
  show "fst (constructComment stack) = JFalse"
    unfolding constructComment_def by (rule comment_loop_false)
  show "suffix (snd (constructComment stack)) stack"
    unfolding constructComment_def by (rule comment_loop_suffix)
next
  assume "list_all (\<lambda>t. name t \<noteq> COMMENT) body \<and> (body \<noteq> [] \<longrightarrow> name (last body) \<noteq> START_EXPR)"
  then show "constructComment (body @ Token COMMENT c # Token END_EXPR d # rest) = (JFalse, rest)"
    unfolding constructComment_def by (intro comment_loop_simple) auto
next
  assume "\<not> has_comment_end stack"
  then show "constructComment stack = (JFalse, [])"
    unfolding constructComment_def by (intro comment_loop_unterminated) auto
next
  assume "END \<noteq> Some COMMENT"
  then show "make root END (Token START_EXPR c # Token COMMENT d # stack)
      = make root END (snd (constructComment stack))"
    by (rule make_comment)
next
  assume a: "END \<noteq> Some COMMENT \<and> \<not> has_comment_end stack"
  then have "constructComment stack = (JFalse, [])"
    unfolding constructComment_def by (intro comment_loop_unterminated) auto
  with a show "make root END (Token START_EXPR c # Token COMMENT d # stack)
      = Inr (Value (Expression root), root, [])"
    by (simp add: make_comment make.simps[of root END "[]"])
qed

text \<open>
  C6 does not hold of the code for a comment with a comment nested in it. After the
  nested call of \<^verbatim>\<open>constructComment\<close> returns, \<^verbatim>\<open>previous\<close> is set to the marker that
  opened the nested comment, so an end of an expression tag right after the nested comment
  is taken for the end of the outer one, although no comment marker precedes it. For
  \<^verbatim>\<open>{%--{%--a--%}%}b--%}c\<close> the outer comment, which ends after \<^verbatim>\<open>b--%}\<close>, is left
  after the nested comment and \<^verbatim>\<open>%}\<close>: \<^verbatim>\<open>constructComment\<close> returns the stack from
  \<^verbatim>\<open>b\<close> on, and the tree holds the text \<^verbatim>\<open>b--c\<close> from inside the comment instead of
  \<^verbatim>\<open>c\<close>. Without the \<^verbatim>\<open>%}\<close> after the nested comment, in
  \<^verbatim>\<open>{%--{%--a--%}b--%}c\<close>, the tree holds \<^verbatim>\<open>c\<close>.
\<close>

theorem nested_comment_ends_early:
  "constructComment
     [Token START_EXPR ''{%'', Token COMMENT ''--'',
      Token OTHER ''a'', Token COMMENT ''--'', Token END_EXPR ''%}'', Token END_EXPR ''%}'',
      Token OTHER ''b'', Token COMMENT ''--'', Token END_EXPR ''%}'', Token OTHER ''c'']
     = (JFalse, [Token OTHER ''b'', Token COMMENT ''--'', Token END_EXPR ''%}'', Token OTHER ''c'']) \<and>
   make Tree_root None
     [Token START_EXPR ''{%'', Token COMMENT ''--'', Token START_EXPR ''{%'', Token COMMENT ''--'',
      Token OTHER ''a'', Token COMMENT ''--'', Token END_EXPR ''%}'', Token END_EXPR ''%}'',
      Token OTHER ''b'', Token COMMENT ''--'', Token END_EXPR ''%}'', Token OTHER ''c'']
     = Inr (Value (Expression (Scope (Some Template) [Text ''b--c''] None None None)),
            Scope (Some Template) [Text ''b--c''] None None None, []) \<and>
   make Tree_root None
     [Token START_EXPR ''{%'', Token COMMENT ''--'', Token START_EXPR ''{%'', Token COMMENT ''--'',
      Token OTHER ''a'', Token COMMENT ''--'', Token END_EXPR ''%}'',
      Token OTHER ''b'', Token COMMENT ''--'', Token END_EXPR ''%}'', Token OTHER ''c'']
     = Inr (Value (Expression (Scope (Some Template) [Text ''c''] None None None)),
            Scope (Some Template) [Text ''c''] None None None, [])"
  by code_simp

subsection \<open>Filter chains\<close>

text \<open>
  C3 does not hold of the code. In \<^verbatim>\<open>constructFilter\<close> the case \<^verbatim>\<open>FILTER\<close> leaves the
  \<^verbatim>\<open>switch\<close>, not the loop, after the nested call has consumed the terminator: the outer
  call reads on. For \<^verbatim>\<open>{{x|a|b}}!\<close> the text after the property becomes an argument of
  the first filter and the stack is left empty; for \<^verbatim>\<open>{{x|a|b}}{{y}}\<close> parsing fails on
  the start of the second property. With one filter the stack is left right after the
  terminator.
\<close>

theorem filter_chain_reads_past_terminator:
  "constructProperty True [Token OTHER ''x'', Token FILTER ''|'', Token OTHER ''a'',
      Token FILTER ''|'', Token OTHER ''b'', Token END_PROP ''}}'', Token OTHER ''!'']
     = Inr (Property ''x'' [Filter (Some ''a'') [''!''], Filter (Some ''b'') []], []) \<and>
   constructProperty True [Token OTHER ''x'', Token FILTER ''|'', Token OTHER ''a'',
      Token FILTER ''|'', Token OTHER ''b'', Token END_PROP ''}}'', Token START_PROP ''{{'',
      Token OTHER ''y'', Token END_PROP ''}}'']
     = Inl (Unexpected START_PROP) \<and>
   constructProperty True [Token OTHER ''x'', Token FILTER ''|'', Token OTHER ''a'',
      Token END_PROP ''}}'', Token OTHER ''!'']
     = Inr (Property ''x'' [Filter (Some ''a'') []], [Token OTHER ''!''])"
  by code_simp

subsection \<open>The chain of a conditional\<close>

text \<open>
  C7 does not hold of the code. For \<^verbatim>\<open>{%if a%}A{%elsif b%}B{%endif%}C\<close> the nested
  conditional is attached to the \<^verbatim>\<open>elsif\<close> field of the first one, and it is also pushed
  onto the node list of the first one, because \<^verbatim>\<open>constructConditional\<close> returns it and
  \<^verbatim>\<open>make\<close> pushes what \<^verbatim>\<open>constructExpression\<close> returns; the body of the first
  conditional then goes on after \<^verbatim>\<open>endif\<close>.
\<close>

theorem elsif_is_also_pushed_as_sibling:
  "make Tree_root None
     [Token START_EXPR ''{%'', Token START_IF ''if'', Token WHITESPACE '' '', Token OTHER ''a'',
      Token END_EXPR ''%}'', Token OTHER ''A'',
      Token START_EXPR ''{%'', Token ELSIF ''elsif'', Token WHITESPACE '' '', Token OTHER ''b'',
      Token END_EXPR ''%}'', Token OTHER ''B'',
      Token START_EXPR ''{%'', Token END_IF ''endif'', Token END_EXPR ''%}'', Token OTHER ''C'']
   = Inr (Value (Expression (Scope (Some Template)
            [Expression (Scope (Some ConditionalExpression)
               [Text ''A'',
                Expression (Scope (Some ConditionalExpression) [Text ''B'']
                  (Some [Identifier ''b'']) None None),
                Text ''C'']
               (Some [Identifier ''a'']) None
               (Some (Scope (Some ConditionalExpression) [Text ''B''] (Some [Identifier ''b''])
                  None None)))]
            None None None)),
          Scope (Some Template)
            [Expression (Scope (Some ConditionalExpression)
               [Text ''A'',
                Expression (Scope (Some ConditionalExpression) [Text ''B'']
                  (Some [Identifier ''b'']) None None),
                Text ''C'']
               (Some [Identifier ''a'']) None
               (Some (Scope (Some ConditionalExpression) [Text ''B''] (Some [Identifier ''b''])
                  None None)))]
            None None None,
          [])"
  by code_simp

end
